theory Spec2Isabelle
  imports Main "HOL-Library.Word" "HOL-Library.Sublist"
begin

section \<open>The program\<close>

text \<open>
  The program launches a headless browser, opens one page of the news listing of
  \<open>mid.ru\<close>, extracts a record for every entry of the listing, writes the records
  to \<open>./output/news_feed.json\<close> and closes the browser. This theory embeds
  \<open>src/index.ts\<close>, the most developed of the three files of the repository, which are
  successive iterations of the same script: the class \<open>NewsFeedFetcher\<close> with
  \<open>initialize\<close>, \<open>getContent\<close>, \<open>saveToJSON\<close> and \<open>close\<close>, the function
  \<open>main\<close>, and the statement that runs it. The browser, the file system, the logger
  and the process are outside the program: their calls are events of a trace, and their
  answers are given by an environment.
\<close>

section \<open>JavaScript strings\<close>

text \<open>
  A JavaScript string is a sequence of 16-bit code units. The listing that the program
  reads is Cyrillic, so a code unit is modelled as a 16-bit word and not as an 8-bit
  character. \<open>js\<close> embeds an ASCII literal of the source.
\<close>

type_synonym code_unit = "16 word"
type_synonym jsstring = "code_unit list"

definition js :: "string \<Rightarrow> jsstring" where
  "js s = map of_char s"

text \<open>
  \<open>String.prototype.trim\<close> removes white space and line terminators from both ends:
  TAB, LF, VT, FF, CR, SP, NBSP, the Unicode space separators, LS, PS and the byte order
  mark.
\<close>

definition isWhiteSpace :: "code_unit \<Rightarrow> bool" where
  "isWhiteSpace c \<longleftrightarrow>
     c \<in> {0x0009, 0x000A, 0x000B, 0x000C, 0x000D, 0x0020, 0x00A0, 0x1680,
          0x2028, 0x2029, 0x202F, 0x205F, 0x3000, 0xFEFF}
     \<or> (0x2000 \<le> c \<and> c \<le> 0x200A)"

definition String_trim :: "jsstring \<Rightarrow> jsstring" where
  "String_trim s = rev (dropWhile isWhiteSpace (rev (dropWhile isWhiteSpace s)))"

text \<open>
  \<open>String.prototype.split(separator)\<close> without a limit. \<open>split_from sep cur s\<close> scans
  \<open>s\<close> from the left; \<open>cur\<close> is the piece collected since the last match. With the
  empty separator the string is split into its code units.
\<close>

function split_from :: "jsstring \<Rightarrow> jsstring \<Rightarrow> jsstring \<Rightarrow> jsstring list" where
  "split_from sep cur [] = [cur]"
| "split_from sep cur (c # cs) =
     (if sep \<noteq> [] \<and> prefix sep (c # cs)
      then cur # split_from sep [] (drop (length sep) (c # cs))
      else split_from sep (cur @ [c]) cs)"
  by pat_completeness auto
termination
  by (relation "measure (\<lambda>(sep, cur, s). length s)") auto

definition String_split :: "jsstring \<Rightarrow> jsstring \<Rightarrow> jsstring list" where
  "String_split S sep = (if sep = [] then map (\<lambda>c. [c]) S else split_from sep [] S)"

text \<open>\<open>String.prototype.includes(searchString)\<close>.\<close>

fun String_includes :: "jsstring \<Rightarrow> jsstring \<Rightarrow> bool" where
  "String_includes [] p = (p = [])"
| "String_includes (c # cs) p = (prefix p (c # cs) \<or> String_includes cs p)"

text \<open>\<open>Array.prototype.join(separator)\<close> on an array of strings.\<close>

fun join :: "jsstring \<Rightarrow> jsstring list \<Rightarrow> jsstring" where
  "join sep [] = []"
| "join sep [x] = x"
| "join sep (x # y # ys) = x @ sep @ join sep (y # ys)"

text \<open>
  A number of the language, as far as the program uses one: it is compared with 1 and
  printed by a template literal (\<open>Number::toString\<close>). An integer of magnitude at
  most \<open>2^53\<close> is held exactly by a double and printed as an optional minus sign and
  its decimal digits: \<open>IntegerNumber\<close>. Every other number (a fraction, a larger
  magnitude, NaN, an infinity) is not 1, and the program only prints it: \<open>OtherNumber\<close>
  carries what \<open>Number::toString\<close> prints for it, such as \<open>2.5\<close>, \<open>NaN\<close> or
  \<open>1152921504606847000\<close> for \<open>2^60\<close>.
\<close>

datatype js_number = IntegerNumber int | OtherNumber jsstring

fun digits :: "nat \<Rightarrow> jsstring" where
  "digits n = (if n < 10 then [of_nat (48 + n)] else digits (n div 10) @ [of_nat (48 + n mod 10)])"

declare digits.simps [simp del]

fun Number_toString :: "js_number \<Rightarrow> jsstring" where
  "Number_toString (IntegerNumber n) =
     (if n < 0 then js ''-'' @ digits (nat (- n)) else digits (nat n))"
| "Number_toString (OtherNumber printed) = printed"

declare Number_toString.simps(1) [simp del]

text \<open>
  The operators \<open>x || d\<close> of the source, on an optional string (undefined and the empty
  string are falsy) and on an optional array (only undefined is falsy).
\<close>

definition str_or :: "jsstring option \<Rightarrow> jsstring \<Rightarrow> jsstring" where
  "str_or x d = (case x of None \<Rightarrow> d | Some s \<Rightarrow> if s = [] then d else s)"

definition arr_or :: "'a list option \<Rightarrow> 'a list \<Rightarrow> 'a list" where
  "arr_or x d = (case x of None \<Rightarrow> d | Some a \<Rightarrow> a)"

section \<open>The document\<close>

text \<open>
  The nodes the extraction reads: an element with its class list, its resolved \<open>href\<close>
  and its children, a text node, and the document node itself. \<open>textContent\<close> of an
  element is the concatenated text of its descendants; of the document it is null.
\<close>

datatype node =
    Element "jsstring list" jsstring "node list"
  | Text jsstring
  | Document "node list"

fun textOf :: "node \<Rightarrow> jsstring" where
  "textOf (Text t) = t"
| "textOf (Element cs h kids) = concat (map textOf kids)"
| "textOf (Document kids) = concat (map textOf kids)"

fun textContent :: "node \<Rightarrow> jsstring option" where
  "textContent (Document kids) = None"
| "textContent n = Some (textOf n)"

text \<open>The \<open>href\<close> property of the link element, which the source casts to an anchor.\<close>

fun href :: "node \<Rightarrow> jsstring" where
  "href (Element cs h kids) = h"
| "href n = []"

text \<open>
  A selector of the source is a compound class selector (\<open>.a.b\<close>), modelled as the list
  of its class names. Only elements match. \<open>descendants\<close> lists the nodes below a node
  in document order (preorder), the order of \<open>querySelectorAll\<close>; \<open>querySelector\<close>
  returns the first match.
\<close>

fun matches :: "jsstring list \<Rightarrow> node \<Rightarrow> bool" where
  "matches sel (Element cs h kids) = list_all (\<lambda>c. c \<in> set cs) sel"
| "matches sel n = False"

fun descendants :: "node \<Rightarrow> node list" where
  "descendants (Text t) = []"
| "descendants (Element cs h kids) = concat (map (\<lambda>k. k # descendants k) kids)"
| "descendants (Document kids) = concat (map (\<lambda>k. k # descendants k) kids)"

definition querySelectorAll :: "jsstring list \<Rightarrow> node \<Rightarrow> node list" where
  "querySelectorAll sel n = filter (matches sel) (descendants n)"

definition querySelector :: "jsstring list \<Rightarrow> node \<Rightarrow> node option" where
  "querySelector sel n = (case querySelectorAll sel n of [] \<Rightarrow> None | e # _ \<Rightarrow> Some e)"

section \<open>Extraction of the news items\<close>

record NewsItem =
  date :: jsstring
  time :: jsstring
  title :: jsstring
  link :: jsstring
  tags :: "jsstring list"

text \<open>
  The value of the \<open>tags\<close> property:
  \<^verbatim>\<open>tagsElement ? tagsElement.textContent?.trim().split(', ') || [] : []\<close>.
\<close>

definition tags_value :: "node option \<Rightarrow> jsstring list" where
  "tags_value tagsElement =
     (case tagsElement of
        Some el \<Rightarrow>
          arr_or (map_option (\<lambda>t. String_split t (js '', ''))
                    (map_option String_trim (textContent el))) []
      | None \<Rightarrow> [])"

text \<open>The object literal pushed for one entry.\<close>

definition news_item :: "node \<Rightarrow> node \<Rightarrow> node \<Rightarrow> node option \<Rightarrow> NewsItem" where
  "news_item dateElement timeElement linkElement tagsElement =
     \<lparr> date = str_or (map_option String_trim (textContent dateElement)) [],
       time = str_or (map_option String_trim (textContent timeElement)) [],
       title = str_or (map_option String_trim (textContent linkElement)) [],
       link = href linkElement,
       tags = tags_value tagsElement \<rparr>"

text \<open>The callback of \<open>announceItems.forEach\<close>: it pushes onto \<open>items\<close> or leaves it.\<close>

definition announce_item :: "node \<Rightarrow> NewsItem list \<Rightarrow> NewsItem list" where
  "announce_item item items =
     (let dateElement = querySelector [js ''announce__date''] item;
          timeElement = querySelector [js ''announce__time''] item;
          linkElement = querySelector [js ''announce__link''] item;
          tagsElement = querySelector [js ''announce__meta-tags''] item
      in case (dateElement, timeElement, linkElement) of
           (Some d, Some t, Some l) \<Rightarrow> items @ [news_item d t l tagsElement]
         | _ \<Rightarrow> items)"

text \<open>The function that \<open>page.evaluate\<close> runs in the page.\<close>

definition extract_news :: "node \<Rightarrow> NewsItem list" where
  "extract_news document =
     (case querySelector [js ''announce'', js ''announce_articles''] document of
        None \<Rightarrow> []
      | Some announceList \<Rightarrow>
          fold announce_item (querySelectorAll [js ''announce__item''] announceList) [])"

section \<open>The fetcher and the world it acts on\<close>

text \<open>
  An \<open>Error\<close> object with its message. The browser and the page are opaque handles.
  Every call that leaves the program (the logger, the browser, the file system, the
  process) is recorded, in order, as an event of the trace.
\<close>

datatype js_error = Error jsstring

datatype Browser = Browser

datatype Page = Page

datatype level = Info | Warn | ErrorLevel

datatype event =
    Log level jsstring "js_error option"
  | Launch
  | NewPage
  | SetUserAgent
  | SetExtraHTTPHeaders
  | Goto jsstring
  | WaitForSelector jsstring
  | Content
  | WaitForNavigation
  | Evaluate
  | ExistsSync jsstring
  | MkdirSync jsstring bool
  | WriteFileSync jsstring jsstring
  | BrowserClose
  | ProcessExit nat

text \<open>
  The state: the two fields of \<open>NewsFeedFetcher\<close>, the trace, and the file system
  (the directories and the files with their contents).
\<close>

record state =
  browser :: "Browser option"
  page :: "Page option"
  trace :: "event list"
  directories :: "jsstring set"
  files :: "jsstring \<rightharpoonup> jsstring"

text \<open>
  The environment answers every external call: \<open>None\<close> where a call succeeds and
  \<open>Some e\<close> where it throws or rejects with \<open>e\<close>; \<open>page.content()\<close> resolves to the
  serialised page, and \<open>page.evaluate\<close> runs its callback in the document the page
  holds at that moment. \<open>path.join\<close> is a function of the platform.
\<close>

record env =
  launch_result :: "js_error option"
  newPage_result :: "js_error option"
  setUserAgent_result :: "js_error option"
  setExtraHTTPHeaders_result :: "js_error option"
  goto_result :: "js_error option"
  waitForSelector_result :: "js_error option"
  content_result :: "js_error + jsstring"
  waitForNavigation_result :: "js_error option"
  evaluate_document :: "js_error + node"
  mkdirSync_result :: "js_error option"
  writeFileSync_result :: "js_error option"
  browser_close_result :: "js_error option"
  path_join :: "jsstring \<Rightarrow> jsstring \<Rightarrow> jsstring"

text \<open>
  An operation takes the state and returns the new state with either the error it threw
  (\<open>Inl\<close>) or its value (\<open>Inr\<close>). \<open>io_catch\<close> is \<open>try/catch\<close> (and a promise's
  \<open>.catch\<close>); \<open>io_finally\<close> is \<open>try/finally\<close>: the final block runs on both paths, and
  if it throws its error replaces the outcome.
\<close>

type_synonym 'a io = "state \<Rightarrow> (js_error + 'a) \<times> state"

definition io_return :: "'a \<Rightarrow> 'a io" where
  "io_return x s = (Inr x, s)"

definition io_throw :: "js_error \<Rightarrow> 'a io" where
  "io_throw e s = (Inl e, s)"

definition io_bind :: "'a io \<Rightarrow> ('a \<Rightarrow> 'b io) \<Rightarrow> 'b io" where
  "io_bind m f s = (case m s of (Inl e, s') \<Rightarrow> (Inl e, s') | (Inr x, s') \<Rightarrow> f x s')"

definition io_catch :: "'a io \<Rightarrow> (js_error \<Rightarrow> 'a io) \<Rightarrow> 'a io" where
  "io_catch m h s = (case m s of (Inl e, s') \<Rightarrow> h e s' | (Inr x, s') \<Rightarrow> (Inr x, s'))"

definition io_finally :: "'a io \<Rightarrow> unit io \<Rightarrow> 'a io" where
  "io_finally m fin s =
     (case m s of (r, s') \<Rightarrow>
        (case fin s' of (Inl e, s'') \<Rightarrow> (Inl e, s'') | (Inr u, s'') \<Rightarrow> (r, s'')))"

definition emit :: "event \<Rightarrow> state \<Rightarrow> state" where
  "emit ev s = s\<lparr>trace := trace s @ [ev]\<rparr>"

definition logger :: "level \<Rightarrow> jsstring \<Rightarrow> js_error option \<Rightarrow> unit io" where
  "logger lv message meta s = (Inr (), emit (Log lv message meta) s)"

definition external :: "event \<Rightarrow> js_error option \<Rightarrow> unit io" where
  "external ev outcome s =
     (case outcome of None \<Rightarrow> (Inr (), emit ev s) | Some e \<Rightarrow> (Inl e, emit ev s))"

definition puppeteer_launch :: "env \<Rightarrow> unit io" where
  "puppeteer_launch env s =
     (case launch_result env of
        None \<Rightarrow> (Inr (), emit Launch (s\<lparr>browser := Some Browser\<rparr>))
      | Some e \<Rightarrow> (Inl e, emit Launch s))"

definition browser_newPage :: "env \<Rightarrow> unit io" where
  "browser_newPage env s =
     (case newPage_result env of
        None \<Rightarrow> (Inr (), emit NewPage (s\<lparr>page := Some Page\<rparr>))
      | Some e \<Rightarrow> (Inl e, emit NewPage s))"

definition page_content :: "env \<Rightarrow> jsstring io" where
  "page_content env s = (content_result env, emit Content s)"

definition page_evaluate :: "env \<Rightarrow> NewsItem list io" where
  "page_evaluate env s =
     (case evaluate_document env of
        Inl e \<Rightarrow> (Inl e, emit Evaluate s)
      | Inr document \<Rightarrow> (Inr (extract_news document), emit Evaluate s))"

definition fs_existsSync :: "jsstring \<Rightarrow> bool io" where
  "fs_existsSync p s = (Inr (p \<in> directories s \<or> files s p \<noteq> None), emit (ExistsSync p) s)"

text \<open>
  \<open>fs.mkdirSync(p, { recursive: true })\<close>; the flag of the event is the option. The
  only path the program creates is \<open>./output\<close>, whose parent is the working directory.
\<close>

definition fs_mkdirSync :: "env \<Rightarrow> jsstring \<Rightarrow> unit io" where
  "fs_mkdirSync env p s =
     (case mkdirSync_result env of
        None \<Rightarrow>
          (Inr (), emit (MkdirSync p True) (s\<lparr>directories := insert p (directories s)\<rparr>))
      | Some e \<Rightarrow> (Inl e, emit (MkdirSync p True) s))"

definition fs_writeFileSync :: "env \<Rightarrow> jsstring \<Rightarrow> jsstring \<Rightarrow> unit io" where
  "fs_writeFileSync env p d s =
     (case writeFileSync_result env of
        None \<Rightarrow> (Inr (), emit (WriteFileSync p d) (s\<lparr>files := (files s)(p \<mapsto> d)\<rparr>))
      | Some e \<Rightarrow> (Inl e, emit (WriteFileSync p d) s))"

section \<open>JSON.stringify\<close>

text \<open>
  \<open>JSON.stringify(data, null, 2)\<close> on an array of news items, after the serialisation
  algorithm of the language: \<open>QuoteJSONString\<close> escapes the quotation mark, the reverse
  solidus, the control characters and every unpaired surrogate; an array and an object
  are laid out with the gap (two spaces) added to the indentation at each level, and an
  empty array is \<open>[]\<close>. The code units that an Isabelle literal cannot hold are written
  as numbers: \<open>0x22\<close> the quotation mark, \<open>0x5C\<close> the reverse solidus, \<open>0x0A\<close> the
  line feed.
\<close>

definition hex_digit :: "nat \<Rightarrow> code_unit" where
  "hex_digit d = (if d < 10 then of_nat (48 + d) else of_nat (87 + d))"

definition UnicodeEscape :: "code_unit \<Rightarrow> jsstring" where
  "UnicodeEscape c =
     [0x5C, 0x75, hex_digit (unat c div 4096), hex_digit (unat c div 256 mod 16),
      hex_digit (unat c div 16 mod 16), hex_digit (unat c mod 16)]"

definition isLeadingSurrogate :: "code_unit \<Rightarrow> bool" where
  "isLeadingSurrogate c \<longleftrightarrow> 0xD800 \<le> c \<and> c \<le> 0xDBFF"

definition isTrailingSurrogate :: "code_unit \<Rightarrow> bool" where
  "isTrailingSurrogate c \<longleftrightarrow> 0xDC00 \<le> c \<and> c \<le> 0xDFFF"

definition quote_unit :: "code_unit \<Rightarrow> jsstring" where
  "quote_unit c =
     (if c = 0x08 then [0x5C, 0x62]
      else if c = 0x09 then [0x5C, 0x74]
      else if c = 0x0A then [0x5C, 0x6E]
      else if c = 0x0C then [0x5C, 0x66]
      else if c = 0x0D then [0x5C, 0x72]
      else if c = 0x22 then [0x5C, 0x22]
      else if c = 0x5C then [0x5C, 0x5C]
      else if c < 0x20 \<or> isLeadingSurrogate c \<or> isTrailingSurrogate c then UnicodeEscape c
      else [c])"

fun quote_units :: "jsstring \<Rightarrow> jsstring" where
  "quote_units [] = []"
| "quote_units [c] = quote_unit c"
| "quote_units (c # d # cs) =
     (if isLeadingSurrogate c \<and> isTrailingSurrogate d then c # d # quote_units cs
      else quote_unit c @ quote_units (d # cs))"

definition QuoteJSONString :: "jsstring \<Rightarrow> jsstring" where
  "QuoteJSONString s = [0x22] @ quote_units s @ [0x22]"

definition SerializeJSONArray :: "jsstring \<Rightarrow> jsstring \<Rightarrow> jsstring list \<Rightarrow> jsstring" where
  "SerializeJSONArray gap stepback partial =
     (let indent = stepback @ gap in
      if partial = [] then js ''[]''
      else if gap = [] then js ''['' @ join (js '','') partial @ js '']''
      else js ''['' @ [0x0A] @ indent @ join (js '','' @ [0x0A] @ indent) partial
             @ [0x0A] @ stepback @ js '']'')"

definition SerializeJSONObject ::
    "jsstring \<Rightarrow> jsstring \<Rightarrow> (jsstring \<times> jsstring) list \<Rightarrow> jsstring" where
  "SerializeJSONObject gap stepback properties =
     (let indent = stepback @ gap;
          partial = map (\<lambda>(P, strP).
                      QuoteJSONString P @ js '':'' @ (if gap \<noteq> [] then js '' '' else []) @ strP)
                    properties
      in if partial = [] then js ''{}''
         else if gap = [] then js ''{'' @ join (js '','') partial @ js ''}''
         else js ''{'' @ [0x0A] @ indent @ join (js '','' @ [0x0A] @ indent) partial
                @ [0x0A] @ stepback @ js ''}'')"

definition stringify_item :: "jsstring \<Rightarrow> jsstring \<Rightarrow> NewsItem \<Rightarrow> jsstring" where
  "stringify_item gap indent item =
     SerializeJSONObject gap indent
       [(js ''date'', QuoteJSONString (date item)),
        (js ''time'', QuoteJSONString (time item)),
        (js ''title'', QuoteJSONString (title item)),
        (js ''link'', QuoteJSONString (link item)),
        (js ''tags'', SerializeJSONArray gap (indent @ gap) (map QuoteJSONString (tags item)))]"

definition JSON_stringify :: "NewsItem list \<Rightarrow> jsstring" where
  "JSON_stringify data =
     (let gap = js ''  '' in SerializeJSONArray gap [] (map (stringify_item gap gap) data))"

section \<open>The operations of NewsFeedFetcher\<close>

definition initialize :: "env \<Rightarrow> unit io" where
  "initialize env =
     io_catch
       (io_bind (puppeteer_launch env) (\<lambda>_.
        io_bind (browser_newPage env) (\<lambda>_.
        io_bind (external SetUserAgent (setUserAgent_result env)) (\<lambda>_.
        io_bind (external SetExtraHTTPHeaders (setExtraHTTPHeaders_result env)) (\<lambda>_.
        logger Info (js ''Browser initialized successfully'') None)))))
       (\<lambda>error.
        io_bind (logger ErrorLevel (js ''Failed to initialize browser:'') (Some error)) (\<lambda>_.
        io_throw (Error (js ''Browser initialization failed''))))"

definition getContent :: "env \<Rightarrow> js_number \<Rightarrow> NewsItem list io" where
  "getContent env pageNumber s =
     (if page s = None then io_throw (Error (js ''Browser not initialized'')) s
      else
        io_catch
          (let url = (if pageNumber = IntegerNumber 1
                      then js ''https://mid.ru/ru/foreign_policy/news/''
                      else js ''https://mid.ru/ru/foreign_policy/news/?PAGEN_1=''
                           @ Number_toString pageNumber)
           in
           io_bind (logger Info (js ''Fetching page '' @ Number_toString pageNumber @ js ''...'')
                     None) (\<lambda>_.
           io_bind (external (Goto url) (goto_result env)) (\<lambda>_.
           io_bind (io_catch
                      (external (WaitForSelector (js ''.announce.announce_articles''))
                         (waitForSelector_result env))
                      (\<lambda>_. logger Warn (js ''Timeout waiting for .announce.announce_articles'')
                             None)) (\<lambda>_.
           io_bind (page_content env) (\<lambda>pageContent.
           io_bind (if String_includes pageContent (js ''Data processing... Please, wait.'')
                    then
                      io_bind (logger Info
                                 (js ''Anti-bot protection detected. Waiting for page to load...'')
                                 None) (\<lambda>_.
                      io_catch (external WaitForNavigation (waitForNavigation_result env))
                        (\<lambda>_. logger Warn (js ''Timeout waiting for navigation'') None))
                    else io_return ()) (\<lambda>_.
           io_bind (page_evaluate env) (\<lambda>newsItems.
           io_bind (logger Info
                      (js ''Found '' @ Number_toString (IntegerNumber (int (length newsItems)))
                       @ js '' news items on page '' @ Number_toString pageNumber)
                      None) (\<lambda>_.
           io_return newsItems))))))))
          (\<lambda>error.
           io_bind (logger ErrorLevel
                      (js ''Error fetching content from page '' @ Number_toString pageNumber
                       @ js '':'')
                      (Some error)) (\<lambda>_.
           io_throw (Error (js ''Failed to fetch content from page ''
                            @ Number_toString pageNumber))))
          s)"

definition saveToJSON :: "env \<Rightarrow> NewsItem list \<Rightarrow> jsstring \<Rightarrow> unit io" where
  "saveToJSON env data filename =
     io_catch
       (let dir = js ''./output'' in
        io_bind (fs_existsSync dir) (\<lambda>exists.
        io_bind (if \<not> exists then fs_mkdirSync env dir else io_return ()) (\<lambda>_.
        let filePath = path_join env dir filename in
        io_bind (fs_writeFileSync env filePath (JSON_stringify data)) (\<lambda>_.
        logger Info (js ''Data saved to '' @ filePath) None))))
       (\<lambda>error.
        io_bind (logger ErrorLevel (js ''Error saving data to JSON:'') (Some error)) (\<lambda>_.
        io_throw (Error (js ''Failed to save data to JSON''))))"

definition close :: "env \<Rightarrow> unit io" where
  "close env s =
     (if browser s \<noteq> None
      then io_bind (external BrowserClose (browser_close_result env)) (\<lambda>_.
           logger Info (js ''Browser closed'') None) s
      else io_return () s)"

section \<open>The run\<close>

text \<open>
  \<open>main\<close> creates a fresh fetcher (both fields null) and runs the three steps
  (\<open>main_try\<close>, the body of its \<open>try\<close>) inside \<open>try/catch/finally\<close>. \<open>run\<close> is the
  last statement of the program, \<open>main().catch(...)\<close>: it returns the exit status of
  the process, \<open>1\<close> where the handler calls \<open>process.exit(1)\<close> and \<open>0\<close> where
  \<open>main\<close> resolves and the process ends by itself.
\<close>

definition main_try :: "env \<Rightarrow> unit io" where
  "main_try env =
     io_bind (initialize env) (\<lambda>_.
     io_bind (getContent env (IntegerNumber 1)) (\<lambda>newsItems.
     io_bind (saveToJSON env newsItems (js ''news_feed.json'')) (\<lambda>_.
     logger Info
       (js ''Total news items fetched: ''
        @ Number_toString (IntegerNumber (int (length newsItems))))
       None)))"

definition new_NewsFeedFetcher :: "state \<Rightarrow> state" where
  "new_NewsFeedFetcher s = s\<lparr>browser := None, page := None\<rparr>"

definition main :: "env \<Rightarrow> unit io" where
  "main env s =
     io_finally
       (io_catch (main_try env)
          (\<lambda>error. logger ErrorLevel (js ''An error occurred:'') (Some error)))
       (close env)
       (new_NewsFeedFetcher s)"

definition run :: "env \<Rightarrow> state \<Rightarrow> nat \<times> state" where
  "run env s =
     (case main env s of
        (Inr u, s') \<Rightarrow> (0, s')
      | (Inl error, s') \<Rightarrow>
          (1, emit (ProcessExit 1)
                (emit (Log ErrorLevel (js ''Unhandled error in main function:'') (Some error))
                   s')))"

section \<open>Observations and fixtures\<close>

text \<open>The navigations and the file-system writes among the events of a trace.\<close>

fun is_navigation :: "event \<Rightarrow> bool" where
  "is_navigation (Goto url) = True"
| "is_navigation ev = False"

fun is_write :: "event \<Rightarrow> bool" where
  "is_write (MkdirSync p r) = True"
| "is_write (WriteFileSync p d) = True"
| "is_write ev = False"

text \<open>
  Two properties of an operation, for every state it starts from: it leaves an
  observation of the state as it was, and it only appends events of a given kind to the
  trace.
\<close>

definition keeps :: "(state \<Rightarrow> 'a) \<Rightarrow> 'b io \<Rightarrow> bool" where
  "keeps obs m \<longleftrightarrow> (\<forall>s. obs (snd (m s)) = obs s)"

definition emits_only :: "(event \<Rightarrow> bool) \<Rightarrow> 'b io \<Rightarrow> bool" where
  "emits_only P m \<longleftrightarrow> (\<forall>s. \<exists>evs. trace (snd (m s)) = trace s @ evs \<and> list_all P evs)"

text \<open>
  Reading a number back from its text. \<open>parse_decimal\<close> accepts a decimal numeral and
  nothing else: one or more of the digits \<open>0\<close> to \<open>9\<close>, with no leading zero except
  in \<open>0\<close> itself. \<open>parse_integer\<close> accepts such a numeral, or a minus sign followed by
  one that is not zero. So at most one text is read as a given integer.
\<close>

definition digit_value :: "code_unit \<Rightarrow> nat option" where
  "digit_value c = (if 0x30 \<le> c \<and> c \<le> 0x39 then Some (unat c - 48) else None)"

fun digits_value :: "nat \<Rightarrow> jsstring \<Rightarrow> nat option" where
  "digits_value acc [] = Some acc"
| "digits_value acc (c # cs) =
     (case digit_value c of None \<Rightarrow> None | Some d \<Rightarrow> digits_value (10 * acc + d) cs)"

definition parse_decimal :: "jsstring \<Rightarrow> nat option" where
  "parse_decimal ds =
     (case ds of
        [] \<Rightarrow> None
      | c # cs \<Rightarrow> if c = 0x30 \<and> cs \<noteq> [] then None else digits_value 0 ds)"

definition parse_integer :: "jsstring \<Rightarrow> int option" where
  "parse_integer s =
     (case s of
        [] \<Rightarrow> None
      | c # cs \<Rightarrow>
          if c = 0x2D
          then (case parse_decimal cs of
                  None \<Rightarrow> None
                | Some m \<Rightarrow> if m = 0 then None else Some (- int m))
          else map_option int (parse_decimal s))"

text \<open>
  The values of \<open>js_number\<close> that stand for a number: an integer of magnitude at most
  \<open>2^53\<close>, or a printed form that is not the numeral of such an integer.
\<close>

fun is_Number :: "js_number \<Rightarrow> bool" where
  "is_Number (IntegerNumber n) = (\<bar>n\<bar> \<le> 2 ^ 53)"
| "is_Number (OtherNumber printed) =
     (case parse_integer printed of None \<Rightarrow> True | Some n \<Rightarrow> 2 ^ 53 < \<bar>n\<bar>)"

text \<open>
  The listing of the end-to-end scenario: a container with a well-formed entry, an entry
  without a time element, and a second well-formed entry (without tags).
\<close>

definition fixture_document :: node where
  "fixture_document =
     Document
       [Element [js ''announce'', js ''announce_articles''] []
          [Element [js ''announce__item''] []
             [Element [js ''announce__date''] [] [Text (js ''1 May'')],
              Element [js ''announce__time''] [] [Text (js ''10:00'')],
              Element [js ''announce__link''] (js ''https://mid.ru/a'') [Text (js '' First '')],
              Element [js ''announce__meta-tags''] [] [Text (js ''Diplomacy, Europe'')]],
           Element [js ''announce__item''] []
             [Element [js ''announce__date''] [] [Text (js ''2 May'')],
              Element [js ''announce__link''] (js ''https://mid.ru/b'') [Text (js ''Broken'')]],
           Element [js ''announce__item''] []
             [Element [js ''announce__date''] [] [Text (js ''3 May'')],
              Element [js ''announce__time''] [] [Text (js ''12:30'')],
              Element [js ''announce__link''] (js ''https://mid.ru/c'') [Text (js ''Third'')]]]]"

text \<open>An entry whose tags element is present and empty.\<close>

definition fixture_entry_empty_tags :: node where
  "fixture_entry_empty_tags =
     Element [js ''announce__item''] []
       [Element [js ''announce__date''] [] [Text (js ''4 May'')],
        Element [js ''announce__time''] [] [Text (js ''09:15'')],
        Element [js ''announce__link''] (js ''https://mid.ru/d'') [Text (js ''Fourth'')],
        Element [js ''announce__meta-tags''] [] []]"

text \<open>
  A world in which every external call succeeds and the page holds the given document,
  and the state of a process that has done nothing yet.
\<close>

definition fixture_env :: "node \<Rightarrow> env" where
  "fixture_env document =
     \<lparr> launch_result = None, newPage_result = None, setUserAgent_result = None,
       setExtraHTTPHeaders_result = None, goto_result = None,
       waitForSelector_result = None, content_result = Inr (js ''<html></html>''),
       waitForNavigation_result = None, evaluate_document = Inr document,
       mkdirSync_result = None, writeFileSync_result = None,
       browser_close_result = None,
       path_join = (\<lambda>dir filename. js ''output/'' @ filename) \<rparr>"

definition initial_state :: state where
  "initial_state =
     \<lparr> browser = None, page = None, trace = [], directories = {}, files = Map.empty \<rparr>"

text \<open>The state after a successful \<open>initialize\<close>, without its events.\<close>

definition fixture_ready_state :: state where
  "fixture_ready_state = initial_state\<lparr>browser := Some Browser, page := Some Page\<rparr>"

section \<open>JSON text, as a reader takes it\<close>

text \<open>
  What follows is not taken from the program: it is the grammar of JSON, as a reader of
  the written file applies it, restricted to the values that occur (strings, arrays and
  objects). \<open>read_string\<close> reads a string after its opening quotation mark: an
  unescaped quotation mark ends it, a reverse solidus starts one of the escapes of the
  grammar (a \<open>u\<close> with four hexadecimal digits, or one of the eight single-character
  escapes), a control character below \<open>0x20\<close> is refused, and so is a surrogate that
  is not half of a pair. \<open>read_value\<close> reads a value, \<open>read_elements\<close> the elements of
  an array up to its closing bracket and \<open>read_members\<close> the members of an object up
  to its closing brace, with white space allowed around the structural characters.
  The first argument bounds the number of nested calls; \<open>JSON_parse\<close> gives twice the
  length of the text, and accepts a text that is one value and nothing more.
\<close>

datatype json = JString jsstring | JArray "json list" | JObject "(jsstring \<times> json) list"

definition hex_value :: "code_unit \<Rightarrow> nat option" where
  "hex_value c =
     (if 0x30 \<le> c \<and> c \<le> 0x39 then Some (unat c - 48)
      else if 0x61 \<le> c \<and> c \<le> 0x66 then Some (unat c - 87)
      else if 0x41 \<le> c \<and> c \<le> 0x46 then Some (unat c - 55)
      else None)"

definition escape_value :: "code_unit \<Rightarrow> code_unit option" where
  "escape_value e =
     (if e = 0x22 then Some 0x22
      else if e = 0x5C then Some 0x5C
      else if e = 0x2F then Some 0x2F
      else if e = 0x62 then Some 0x08
      else if e = 0x66 then Some 0x0C
      else if e = 0x6E then Some 0x0A
      else if e = 0x72 then Some 0x0D
      else if e = 0x74 then Some 0x09
      else None)"

definition read_more :: "jsstring \<Rightarrow> (jsstring \<times> jsstring) option \<Rightarrow> (jsstring \<times> jsstring) option" where
  "read_more units later = map_option (\<lambda>(v, rest). (units @ v, rest)) later"

fun read_string :: "jsstring \<Rightarrow> (jsstring \<times> jsstring) option" where
  "read_string [] = None"
| "read_string (c # cs) =
     (if c = 0x22 then Some ([], cs)
      else if c = 0x5C then
        (case cs of
           [] \<Rightarrow> None
         | e # cs' \<Rightarrow>
             if e = 0x75 then
               (case cs' of
                  h3 # h2 # h1 # h0 # rest \<Rightarrow>
                    (case (hex_value h3, hex_value h2, hex_value h1, hex_value h0) of
                       (Some x3, Some x2, Some x1, Some x0) \<Rightarrow>
                         read_more [of_nat (4096 * x3 + 256 * x2 + 16 * x1 + x0)]
                           (read_string rest)
                     | _ \<Rightarrow> None)
                | _ \<Rightarrow> None)
             else
               (case escape_value e of
                  None \<Rightarrow> None
                | Some u \<Rightarrow> read_more [u] (read_string cs')))
      else if c < 0x20 then None
      else if isLeadingSurrogate c then
        (case cs of
           [] \<Rightarrow> None
         | d # cs' \<Rightarrow>
             if isTrailingSurrogate d then read_more [c, d] (read_string cs') else None)
      else if isTrailingSurrogate c then None
      else read_more [c] (read_string cs))"

definition isJSONWhiteSpace :: "code_unit \<Rightarrow> bool" where
  "isJSONWhiteSpace c \<longleftrightarrow> c = 0x20 \<or> c = 0x0A \<or> c = 0x0D \<or> c = 0x09"

definition skip_ws :: "jsstring \<Rightarrow> jsstring" where
  "skip_ws s = dropWhile isJSONWhiteSpace s"

fun read_value :: "nat \<Rightarrow> jsstring \<Rightarrow> (json \<times> jsstring) option"
  and read_elements :: "nat \<Rightarrow> jsstring \<Rightarrow> (json list \<times> jsstring) option"
  and read_members :: "nat \<Rightarrow> jsstring \<Rightarrow> ((jsstring \<times> json) list \<times> jsstring) option" where
  "read_value 0 s = None"
| "read_value (Suc k) s =
     (case s of
        [] \<Rightarrow> None
      | c # cs \<Rightarrow>
          if c = 0x22 then map_option (\<lambda>(v, rest). (JString v, rest)) (read_string cs)
          else if c = 0x5B then
            (case skip_ws cs of
               [] \<Rightarrow> None
             | d # rest \<Rightarrow>
                 if d = 0x5D then Some (JArray [], rest)
                 else map_option (\<lambda>(vs, rest). (JArray vs, rest)) (read_elements k (d # rest)))
          else if c = 0x7B then
            (case skip_ws cs of
               [] \<Rightarrow> None
             | d # rest \<Rightarrow>
                 if d = 0x7D then Some (JObject [], rest)
                 else map_option (\<lambda>(ms, rest). (JObject ms, rest)) (read_members k (d # rest)))
          else None)"
| "read_elements 0 s = None"
| "read_elements (Suc k) s =
     (case read_value k s of
        None \<Rightarrow> None
      | Some (v, after) \<Rightarrow>
          (case skip_ws after of
             [] \<Rightarrow> None
           | c # rest \<Rightarrow>
               if c = 0x2C
               then map_option (\<lambda>(vs, rest'). (v # vs, rest')) (read_elements k (skip_ws rest))
               else if c = 0x5D then Some ([v], rest)
               else None))"
| "read_members 0 s = None"
| "read_members (Suc k) s =
     (case s of
        [] \<Rightarrow> None
      | q # cs \<Rightarrow>
          if q = 0x22 then
            (case read_string cs of
               None \<Rightarrow> None
             | Some (name, after_name) \<Rightarrow>
                 (case skip_ws after_name of
                    [] \<Rightarrow> None
                  | colon # after_colon \<Rightarrow>
                      if colon = 0x3A then
                        (case read_value k (skip_ws after_colon) of
                           None \<Rightarrow> None
                         | Some (v, after) \<Rightarrow>
                             (case skip_ws after of
                                [] \<Rightarrow> None
                              | c # rest \<Rightarrow>
                                  if c = 0x2C
                                  then map_option (\<lambda>(ms, rest'). ((name, v) # ms, rest'))
                                         (read_members k (skip_ws rest))
                                  else if c = 0x7D then Some ([(name, v)], rest)
                                  else None))
                      else None))
          else None)"

definition JSON_parse :: "jsstring \<Rightarrow> json option" where
  "JSON_parse s =
     (case read_value (2 * length s) (skip_ws s) of
        None \<Rightarrow> None
      | Some (v, rest) \<Rightarrow> if skip_ws rest = [] then Some v else None)"

text \<open>The JSON value that stands for a news item, and for a list of them.\<close>

definition item_json :: "NewsItem \<Rightarrow> json" where
  "item_json item =
     JObject [(js ''date'', JString (date item)), (js ''time'', JString (time item)),
              (js ''title'', JString (title item)), (js ''link'', JString (link item)),
              (js ''tags'', JArray (map JString (tags item)))]"

definition items_json :: "NewsItem list \<Rightarrow> json" where
  "items_json data = JArray (map item_json data)"

text \<open>
  The layout with an indent of two spaces, line by line. An element of an array and a
  member of an object stand on lines of their own, indented by two spaces more than
  the line that opens the array or object; a comma ends the last line of every
  element or member but the last; the closing bracket stands on a line of its own at
  the indentation of the opening line; an empty array is \<open>[]\<close> on the opening line.
\<close>

definition spaces :: "nat \<Rightarrow> jsstring" where
  "spaces n = replicate n 0x20"

fun with_commas :: "jsstring list list \<Rightarrow> jsstring list" where
  "with_commas [] = []"
| "with_commas [block] = block"
| "with_commas (block # following # blocks) =
     butlast block @ [last block @ js '',''] @ with_commas (following # blocks)"

definition tags_lines :: "jsstring list \<Rightarrow> jsstring list" where
  "tags_lines ts =
     (if ts = [] then [js ''[]'']
      else [js ''[''] @ with_commas (map (\<lambda>t. [spaces 6 @ QuoteJSONString t]) ts)
           @ [spaces 4 @ js '']''])"

definition member_line :: "string \<Rightarrow> jsstring \<Rightarrow> jsstring" where
  "member_line name val = spaces 4 @ QuoteJSONString (js name) @ js '': '' @ val"

definition item_lines :: "NewsItem \<Rightarrow> jsstring list" where
  "item_lines item =
     [spaces 2 @ js ''{'',
      member_line ''date'' (QuoteJSONString (date item)) @ js '','',
      member_line ''time'' (QuoteJSONString (time item)) @ js '','',
      member_line ''title'' (QuoteJSONString (title item)) @ js '','',
      member_line ''link'' (QuoteJSONString (link item)) @ js '','',
      member_line ''tags'' (hd (tags_lines (tags item)))]
     @ tl (tags_lines (tags item))
     @ [spaces 2 @ js ''}'']"

definition pretty_lines :: "NewsItem list \<Rightarrow> jsstring list" where
  "pretty_lines data =
     (if data = [] then [js ''[]'']
      else [js ''[''] @ with_commas (map item_lines data) @ [js '']''])"

definition one_line :: "jsstring \<Rightarrow> bool" where
  "one_line s \<longleftrightarrow> 0x0A \<notin> set s"

section \<open>Splitting, joining and selecting\<close>

lemma split_from_not_Nil: "split_from sep cur s \<noteq> []"
  by (induction sep cur s rule: split_from.induct) auto

lemma join_Cons: "ys \<noteq> [] \<Longrightarrow> join sep (x # ys) = x @ sep @ join sep ys"
  by (cases ys) auto

lemma join_split_from: "sep \<noteq> [] \<Longrightarrow> join sep (split_from sep cur s) = cur @ s"
proof (induction sep cur s rule: split_from.induct)
  case (1 sep cur)
  then show ?case by simp
next
  case (2 sep cur c cs)
  show ?case
  proof (cases "prefix sep (c # cs)")
    case True
    then have whole: "sep @ drop (length sep) (c # cs) = c # cs"
      by (metis append_eq_conv_conj prefixE)
    from True 2 have "join sep (split_from sep [] (drop (length sep) (c # cs)))
        = drop (length sep) (c # cs)"
      by simp
    with True 2(3) whole show ?thesis
      by (simp add: join_Cons split_from_not_Nil del: drop_Suc_Cons)
  next
    case False
    with 2 show ?thesis by simp
  qed
qed

text \<open>
  No piece of a split contains the separator: while a piece is being collected, the
  separator starts at none of its positions.
\<close>

lemma String_includes_iff:
  "String_includes s p \<longleftrightarrow> (\<exists>i\<le>length s. prefix p (drop i s))"
proof (induction s)
  case Nil
  show ?case by auto
next
  case (Cons c cs)
  show ?case
  proof
    assume "String_includes (c # cs) p"
    then consider "prefix p (c # cs)" | "String_includes cs p" by auto
    then show "\<exists>i\<le>length (c # cs). prefix p (drop i (c # cs))"
    proof cases
      case 1
      then have "prefix p (drop 0 (c # cs))" by simp
      then show ?thesis by blast
    next
      case 2
      with Cons obtain i where "i \<le> length cs" "prefix p (drop i cs)" by blast
      then have "Suc i \<le> length (c # cs)" "prefix p (drop (Suc i) (c # cs))" by simp_all
      then show ?thesis by blast
    qed
  next
    assume "\<exists>i\<le>length (c # cs). prefix p (drop i (c # cs))"
    then obtain i where i: "i \<le> length (c # cs)" "prefix p (drop i (c # cs))" by blast
    show "String_includes (c # cs) p"
    proof (cases i)
      case 0
      with i show ?thesis by simp
    next
      case (Suc j)
      with i have "j \<le> length cs" "prefix p (drop j cs)" by simp_all
      with Cons show ?thesis by auto
    qed
  qed
qed

lemma not_includes_piece:
  assumes "sep \<noteq> []" and "\<forall>i<length cur. \<not> prefix sep (drop i (cur @ s))"
  shows "\<not> String_includes cur sep"
proof
  assume "String_includes cur sep"
  then obtain i where i: "i \<le> length cur" "prefix sep (drop i cur)"
    by (auto simp: String_includes_iff)
  with assms(1) have "i < length cur"
    by (cases "i = length cur") auto
  moreover from i have "prefix sep (drop i (cur @ s))"
    by (simp add: prefix_prefix)
  ultimately show False using assms(2) by blast
qed

lemma split_from_pieces:
  assumes "sep \<noteq> []" and "\<forall>i<length cur. \<not> prefix sep (drop i (cur @ s))"
  shows "\<forall>p\<in>set (split_from sep cur s). \<not> String_includes p sep"
  using assms
proof (induction sep cur s rule: split_from.induct)
  case (1 sep cur)
  then show ?case using not_includes_piece [of sep cur "[]"] by simp
next
  case (2 sep cur c cs)
  show ?case
  proof (cases "prefix sep (c # cs)")
    case True
    have "\<not> String_includes cur sep"
      using not_includes_piece [OF 2(3) 2(4)] .
    moreover have "\<forall>p\<in>set (split_from sep [] (drop (length sep) (c # cs))). \<not> String_includes p sep"
      using 2(1) True 2(3) by simp
    ultimately show ?thesis using True 2(3) by simp
  next
    case False
    have "\<forall>i<length (cur @ [c]). \<not> prefix sep (drop i ((cur @ [c]) @ cs))"
    proof (intro allI impI)
      fix i assume "i < length (cur @ [c])"
      then consider "i < length cur" | "i = length cur" by fastforce
      then show "\<not> prefix sep (drop i ((cur @ [c]) @ cs))"
      proof cases
        case 1
        with 2(4) show ?thesis by simp
      next
        case 2
        with False show ?thesis by simp
      qed
    qed
    with 2(2) False 2(3) show ?thesis by simp
  qed
qed

lemma comma_space_not_Nil: "js '', '' \<noteq> []"
  by (simp add: js_def)

lemma matches_Element: "matches sel e \<Longrightarrow> \<exists>cs h kids. e = Element cs h kids"
  by (cases e) auto

lemma querySelector_Some_matches: "querySelector sel n = Some e \<Longrightarrow> matches sel e"
  unfolding querySelector_def querySelectorAll_def
  by (auto split: list.splits dest: filter_eq_ConsD)

lemma tags_value_Element:
  "tags_value (Some (Element cs h kids))
     = split_from (js '', '') [] (String_trim (textOf (Element cs h kids)))"
  by (simp add: tags_value_def arr_or_def String_split_def comma_space_not_Nil)

text \<open>
  The loop over the entries appends, to the records collected so far, the records of the
  entries that have all three elements, in the order of the entries.
\<close>

lemma fold_announce_item:
  "fold announce_item xs acc =
     acc @ map (\<lambda>item. news_item (the (querySelector [js ''announce__date''] item))
                          (the (querySelector [js ''announce__time''] item))
                          (the (querySelector [js ''announce__link''] item))
                          (querySelector [js ''announce__meta-tags''] item))
             (filter (\<lambda>item. querySelector [js ''announce__date''] item \<noteq> None
                            \<and> querySelector [js ''announce__time''] item \<noteq> None
                            \<and> querySelector [js ''announce__link''] item \<noteq> None) xs)"
proof (induction xs arbitrary: acc)
  case Nil
  show ?case by simp
next
  case (Cons x xs)
  show ?case
    by (simp add: Cons.IH) (auto simp: announce_item_def split: option.splits)
qed

section \<open>Sequencing, and what an operation leaves alone\<close>

lemmas io_defs = io_bind_def io_catch_def io_finally_def io_return_def io_throw_def
  logger_def external_def emit_def

lemma io_bind_fst:
  "fst (io_bind m f s) = (case fst (m s) of Inl e \<Rightarrow> Inl e | Inr x \<Rightarrow> fst (f x (snd (m s))))"
  by (simp add: io_bind_def split: prod.splits sum.splits)

lemma io_bind_snd:
  "snd (io_bind m f s) = (case fst (m s) of Inl e \<Rightarrow> snd (m s) | Inr x \<Rightarrow> snd (f x (snd (m s))))"
  by (simp add: io_bind_def split: prod.splits sum.splits)

lemma io_catch_snd:
  "snd (io_catch m h s) = (case fst (m s) of Inl e \<Rightarrow> snd (h e (snd (m s))) | Inr x \<Rightarrow> snd (m s))"
  by (simp add: io_catch_def split: prod.splits sum.splits)

text \<open>
  An observation that every step keeps is kept by their composition, and a composition
  of steps that only append events of one kind only appends events of that kind.
\<close>

lemma keeps_bind: "keeps obs m \<Longrightarrow> (\<And>x. keeps obs (f x)) \<Longrightarrow> keeps obs (io_bind m f)"
  by (simp add: keeps_def io_bind_snd split: sum.splits)

lemma keeps_catch: "keeps obs m \<Longrightarrow> (\<And>e. keeps obs (h e)) \<Longrightarrow> keeps obs (io_catch m h)"
  by (simp add: keeps_def io_catch_snd split: sum.splits)

lemma keeps_return: "keeps obs (io_return x)"
  by (simp add: keeps_def io_return_def)

lemma keeps_throw: "keeps obs (io_throw e)"
  by (simp add: keeps_def io_throw_def)

lemma keeps_if: "keeps obs a \<Longrightarrow> keeps obs b \<Longrightarrow> keeps obs (if c then a else b)"
  by simp

lemma keeps_logger: "(\<And>s. obs (emit (Log lv msg meta) s) = obs s) \<Longrightarrow> keeps obs (logger lv msg meta)"
  by (simp add: keeps_def logger_def)

lemma keeps_external: "(\<And>s. obs (emit ev s) = obs s) \<Longrightarrow> keeps obs (external ev r)"
  by (simp add: keeps_def external_def split: option.splits)

lemma keeps_page_content: "(\<And>s. obs (emit Content s) = obs s) \<Longrightarrow> keeps obs (page_content env)"
  by (simp add: keeps_def page_content_def)

lemma keeps_page_evaluate: "(\<And>s. obs (emit Evaluate s) = obs s) \<Longrightarrow> keeps obs (page_evaluate env)"
  by (simp add: keeps_def page_evaluate_def split: sum.splits)

lemmas keeps_intros = keeps_bind keeps_catch keeps_return keeps_throw keeps_if keeps_logger
  keeps_external keeps_page_content keeps_page_evaluate

lemma emits_only_bind:
  assumes "emits_only P m" and "\<And>x. emits_only P (f x)"
  shows "emits_only P (io_bind m f)"
proof (unfold emits_only_def, intro allI)
  fix s
  obtain evs where m: "trace (snd (m s)) = trace s @ evs" "list_all P evs"
    using assms(1) unfolding emits_only_def by blast
  show "\<exists>evs. trace (snd (io_bind m f s)) = trace s @ evs \<and> list_all P evs"
  proof (cases "fst (m s)")
    case (Inl e)
    with m show ?thesis by (auto simp: io_bind_snd)
  next
    case (Inr x)
    obtain evs' where f: "trace (snd (f x (snd (m s)))) = trace (snd (m s)) @ evs'" "list_all P evs'"
      using assms(2) unfolding emits_only_def by blast
    with m Inr show ?thesis by (auto simp: io_bind_snd)
  qed
qed

lemma emits_only_catch:
  assumes "emits_only P m" and "\<And>e. emits_only P (h e)"
  shows "emits_only P (io_catch m h)"
proof (unfold emits_only_def, intro allI)
  fix s
  obtain evs where m: "trace (snd (m s)) = trace s @ evs" "list_all P evs"
    using assms(1) unfolding emits_only_def by blast
  show "\<exists>evs. trace (snd (io_catch m h s)) = trace s @ evs \<and> list_all P evs"
  proof (cases "fst (m s)")
    case (Inr x)
    with m show ?thesis by (auto simp: io_catch_snd)
  next
    case (Inl e)
    obtain evs' where f: "trace (snd (h e (snd (m s)))) = trace (snd (m s)) @ evs'" "list_all P evs'"
      using assms(2) unfolding emits_only_def by blast
    with m Inl show ?thesis by (auto simp: io_catch_snd)
  qed
qed

lemma emits_only_return: "emits_only P (io_return x)"
  by (simp add: emits_only_def io_return_def)

lemma emits_only_throw: "emits_only P (io_throw e)"
  by (simp add: emits_only_def io_throw_def)

lemma emits_only_if: "emits_only P a \<Longrightarrow> emits_only P b \<Longrightarrow> emits_only P (if c then a else b)"
  by simp

lemma emits_only_logger: "P (Log lv msg meta) \<Longrightarrow> emits_only P (logger lv msg meta)"
  by (simp add: emits_only_def logger_def emit_def)

lemma emits_only_external: "P ev \<Longrightarrow> emits_only P (external ev r)"
  by (simp add: emits_only_def external_def emit_def split: option.splits)

lemma emits_only_page_content: "P Content \<Longrightarrow> emits_only P (page_content env)"
  by (simp add: emits_only_def page_content_def emit_def)

lemma emits_only_page_evaluate: "P Evaluate \<Longrightarrow> emits_only P (page_evaluate env)"
  by (simp add: emits_only_def page_evaluate_def emit_def split: sum.splits)

lemmas emits_only_intros = emits_only_bind emits_only_catch emits_only_return emits_only_throw
  emits_only_if emits_only_logger emits_only_external emits_only_page_content
  emits_only_page_evaluate

section \<open>The operations, one by one\<close>

text \<open>
  \<open>getContent\<close> changes nothing but the trace; on a fetcher that has its page, the trace
  grows by the log line, the navigation, and events that are neither a navigation nor a
  write.
\<close>

lemma keeps_getContent:
  assumes "\<And>ev s. obs (emit ev s) = obs s"
  shows "keeps obs (getContent env n)"
proof -
  have "obs (snd (getContent env n s)) = obs s" for s
  proof (cases "page s")
    case None
    then show ?thesis by (simp add: getContent_def io_throw_def)
  next
    case (Some p)
    then show ?thesis
      unfolding getContent_def Let_def
      apply (simp only: option.simps if_False)
      apply (rule keeps_def [THEN iffD1, rule_format])
      apply (intro keeps_intros assms)
      done
  qed
  then show ?thesis by (simp add: keeps_def)
qed

lemma getContent_fields:
  "browser (snd (getContent env n s)) = browser s"
  "page (snd (getContent env n s)) = page s"
  "files (snd (getContent env n s)) = files s"
  "directories (snd (getContent env n s)) = directories s"
  using keeps_getContent [of browser env n] keeps_getContent [of page env n]
    keeps_getContent [of files env n] keeps_getContent [of directories env n]
  by (simp_all add: keeps_def emit_def)

lemma getContent_trace:
  assumes "page s \<noteq> None"
  shows "\<exists>rest. trace (snd (getContent env n s)) =
      trace s @ Log Info (js ''Fetching page '' @ Number_toString n @ js ''...'') None
       # Goto (if n = IntegerNumber 1 then js ''https://mid.ru/ru/foreign_policy/news/''
               else js ''https://mid.ru/ru/foreign_policy/news/?PAGEN_1='' @ Number_toString n)
       # rest
      \<and> list_all (\<lambda>ev. \<not> is_navigation ev \<and> \<not> is_write ev) rest"
proof -
  have two: "\<exists>evs. trace (snd (io_catch (io_bind (logger lv msg None) (\<lambda>_. io_bind (external ev r) (\<lambda>_. rest))) h s))
      = trace s @ Log lv msg None # ev # evs \<and> list_all P evs"
    if rest: "emits_only P rest" and handler: "\<And>e. emits_only P (h e)" for lv msg ev r P h
      and rest :: "NewsItem list io"
  proof -
    let ?s2 = "emit ev (emit (Log lv msg None) s)"
    show ?thesis
    proof (cases r)
      case None
      have "emits_only P (io_catch rest h)"
        using rest handler by (intro emits_only_catch)
      then obtain evs where "trace (snd (io_catch rest h ?s2)) = trace ?s2 @ evs" "list_all P evs"
        unfolding emits_only_def by blast
      moreover have "io_catch (io_bind (logger lv msg None) (\<lambda>_. io_bind (external ev r) (\<lambda>_. rest))) h s
          = io_catch rest h ?s2"
        using None by (simp add: io_catch_def io_bind_def logger_def external_def)
      ultimately show ?thesis by (simp add: emit_def)
    next
      case (Some e)
      obtain evs where "trace (snd (h e ?s2)) = trace ?s2 @ evs" "list_all P evs"
        using handler unfolding emits_only_def by blast
      moreover have "io_catch (io_bind (logger lv msg None) (\<lambda>_. io_bind (external ev r) (\<lambda>_. rest))) h s
          = h e ?s2"
        using Some by (simp add: io_catch_def io_bind_def logger_def external_def)
      ultimately show ?thesis by (simp add: emit_def)
    qed
  qed
  from assms show ?thesis
    unfolding getContent_def Let_def
    apply (simp only: if_False)
    apply (rule two)
     apply (intro emits_only_intros; simp)
    apply (intro emits_only_intros; simp)
    done
qed

text \<open>
  The only calls of \<open>getContent\<close> whose failure reaches its \<open>catch\<close> are \<open>goto\<close>,
  \<open>content\<close> and \<open>evaluate\<close>; the two waits have a \<open>.catch\<close> of their own.
\<close>

lemma getContent_result:
  assumes "page s \<noteq> None"
  shows "fst (getContent env n s) =
     (if goto_result env \<noteq> None \<or> isl (content_result env) \<or> isl (evaluate_document env)
      then Inl (Error (js ''Failed to fetch content from page '' @ Number_toString n))
      else Inr (extract_news (projr (evaluate_document env))))"
proof -
  from assms obtain p where p: "page s = Some p" by auto
  show ?thesis
    by (cases "goto_result env"; cases "waitForSelector_result env"; cases "content_result env";
        cases "waitForNavigation_result env"; cases "evaluate_document env")
       (simp_all add: p getContent_def io_defs page_content_def page_evaluate_def Let_def)
qed

text \<open>\<open>initialize\<close> fails exactly when one of its four calls fails.\<close>

lemma initialize_result:
  "fst (initialize env s) =
     (if launch_result env = None \<and> newPage_result env = None
         \<and> setUserAgent_result env = None \<and> setExtraHTTPHeaders_result env = None
      then Inr () else Inl (Error (js ''Browser initialization failed'')))"
  by (cases "launch_result env"; cases "newPage_result env"; cases "setUserAgent_result env";
      cases "setExtraHTTPHeaders_result env")
     (simp_all add: initialize_def io_defs puppeteer_launch_def browser_newPage_def)

lemma initialize_fields:
  "browser (snd (initialize env s)) = (if launch_result env = None then Some Browser else browser s)"
  "files (snd (initialize env s)) = files s"
  "directories (snd (initialize env s)) = directories s"
  "filter is_navigation (trace (snd (initialize env s))) = filter is_navigation (trace s)"
  "filter is_write (trace (snd (initialize env s))) = filter is_write (trace s)"
  by (cases "launch_result env"; cases "newPage_result env"; cases "setUserAgent_result env";
      cases "setExtraHTTPHeaders_result env";
      simp add: initialize_def io_defs puppeteer_launch_def browser_newPage_def)+

lemma saveToJSON_result:
  "fst (saveToJSON env d f s) =
     (if (js ''./output'' \<notin> directories s \<and> files s (js ''./output'') = None
            \<and> mkdirSync_result env \<noteq> None)
         \<or> writeFileSync_result env \<noteq> None
      then Inl (Error (js ''Failed to save data to JSON'')) else Inr ())"
  by (cases "mkdirSync_result env"; cases "writeFileSync_result env")
     (auto simp: saveToJSON_def io_defs fs_existsSync_def fs_mkdirSync_def fs_writeFileSync_def
      Let_def)

lemma saveToJSON_fields:
  "browser (snd (saveToJSON env d f s)) = browser s"
  "page (snd (saveToJSON env d f s)) = page s"
  "filter is_navigation (trace (snd (saveToJSON env d f s))) = filter is_navigation (trace s)"
  by (cases "mkdirSync_result env"; cases "writeFileSync_result env";
      simp add: saveToJSON_def io_defs fs_existsSync_def fs_mkdirSync_def fs_writeFileSync_def
      Let_def)+

lemma close_cases:
  "browser s = None \<Longrightarrow> close env s = (Inr (), s)"
  "browser s \<noteq> None \<Longrightarrow> browser_close_result env = None \<Longrightarrow>
     close env s = (Inr (), s\<lparr>trace := trace s @ [BrowserClose, Log Info (js ''Browser closed'') None]\<rparr>)"
  "browser s \<noteq> None \<Longrightarrow> browser_close_result env = Some e \<Longrightarrow>
     close env s = (Inl e, s\<lparr>trace := trace s @ [BrowserClose]\<rparr>)"
  by (auto simp: close_def io_defs)

text \<open>
  Whether the fetcher holds a browser when \<open>close\<close> runs depends on the launch alone,
  and \<open>main\<close> rejects exactly when that browser cannot be closed.
\<close>

lemma main_try_browser:
  "browser (snd (main_try env s)) = (if launch_result env = None then Some Browser else browser s)"
  by (simp add: main_try_def io_bind_snd initialize_fields getContent_fields saveToJSON_fields
      logger_def emit_def split: sum.splits)

lemma main_outcome:
  "fst (main env s) =
     (case browser_close_result env of
        Some e \<Rightarrow> if launch_result env = None then Inl e else Inr ()
      | None \<Rightarrow> Inr ())"
proof -
  obtain r s1 where mt: "main_try env (new_NewsFeedFetcher s) = (r, s1)"
    by (cases "main_try env (new_NewsFeedFetcher s)")
  have b: "browser s1 = (if launch_result env = None then Some Browser else None)"
    using main_try_browser [of env "new_NewsFeedFetcher s"] mt
    by (simp add: new_NewsFeedFetcher_def)
  show ?thesis
    using mt b
    by (cases r; cases "browser_close_result env"; cases "launch_result env")
       (simp_all add: main_def io_catch_def io_finally_def logger_def emit_def close_def
         io_bind_def external_def io_return_def)
qed

lemma run_fst: "fst (run env s) = (case fst (main env s) of Inl e \<Rightarrow> 1 | Inr u \<Rightarrow> 0)"
  by (simp add: run_def split: prod.splits sum.splits)

lemma initialize_page:
  "fst (initialize env s) = Inr () \<Longrightarrow> page (snd (initialize env s)) = Some Page"
  by (cases "launch_result env"; cases "newPage_result env"; cases "setUserAgent_result env";
      cases "setExtraHTTPHeaders_result env")
     (simp_all add: initialize_def io_defs puppeteer_launch_def browser_newPage_def)

lemma filter_none: "list_all (\<lambda>ev. \<not> P ev \<and> \<not> Q ev) evs \<Longrightarrow> filter P evs = []"
  by (induction evs) auto

section \<open>Decimal digits and fixtures\<close>

lemma unat_digit: "d < 10 \<Longrightarrow> unat (of_nat (48 + d) :: 16 word) = 48 + d"
  by (simp only: unat_of_nat) simp

lemma digit_value_digit: "d < 10 \<Longrightarrow> digit_value (of_nat (48 + d) :: 16 word) = Some d"
  by (simp add: digit_value_def word_le_nat_alt unat_digit del: of_nat_add)

lemma digit_not_minus:
  assumes "d < 10"
  shows "(of_nat (48 + d) :: 16 word) \<noteq> 0x2D"
proof
  assume "(of_nat (48 + d) :: 16 word) = 0x2D"
  then have "unat (of_nat (48 + d) :: 16 word) = unat (0x2D :: 16 word)"
    by (rule arg_cong)
  with unat_digit [OF assms] have "48 + d = unat (0x2D :: 16 word)"
    by (simp only:)
  then show False by simp
qed

lemma digit_zero:
  assumes "d < 10" and "(of_nat (48 + d) :: 16 word) = 0x30"
  shows "d = 0"
proof -
  from assms(2) have "unat (of_nat (48 + d) :: 16 word) = unat (0x30 :: 16 word)"
    by (rule arg_cong)
  with unat_digit [OF assms(1)] have "48 + d = unat (0x30 :: 16 word)"
    by (simp only:)
  then show ?thesis by simp
qed

lemma digits_value_snoc:
  "digits_value acc (ds @ [c]) =
     (case digits_value acc ds of
        None \<Rightarrow> None
      | Some a \<Rightarrow> (case digit_value c of None \<Rightarrow> None | Some d \<Rightarrow> Some (10 * a + d)))"
  by (induction ds arbitrary: acc) (auto split: option.splits)

text \<open>
  The digits printed for \<open>n\<close> are read back as \<open>n\<close>; they start with a digit, which
  is \<open>0\<close> only for zero.
\<close>

lemma digits_value_digits: "digits_value 0 (digits n) = Some n"
proof (induction n rule: digits.induct)
  case (1 n)
  show ?case
  proof (cases "n < 10")
    case True
    then have "digits n = [of_nat (48 + n)]"
      by (subst digits.simps) simp
    with True show ?thesis
      by (simp add: digit_value_digit del: of_nat_add)
  next
    case False
    then have "digits n = digits (n div 10) @ [of_nat (48 + n mod 10)]"
      by (subst digits.simps) simp
    with False 1 show ?thesis
      by (simp add: digits_value_snoc digit_value_digit del: of_nat_add)
  qed
qed

lemma digits_head:
  "\<exists>c cs. digits n = c # cs \<and> c \<noteq> 0x2D \<and> (c = 0x30 \<longrightarrow> cs = [])"
proof (induction n rule: digits.induct)
  case (1 n)
  show ?case
  proof (cases "n < 10")
    case True
    then have "digits n = [of_nat (48 + n)]"
      by (subst digits.simps) simp
    with True show ?thesis
      using digit_not_minus [of n] by (simp del: of_nat_add)
  next
    case False
    then have split: "digits n = digits (n div 10) @ [of_nat (48 + n mod 10)]"
      by (subst digits.simps) simp
    from False 1 obtain c cs where higher: "digits (n div 10) = c # cs" "c \<noteq> 0x2D"
      "c = 0x30 \<longrightarrow> cs = []"
      by auto
    have "c \<noteq> 0x30"
    proof
      assume zero: "c = 0x30"
      with higher have "digits (n div 10) = [0x30]" by simp
      then have "digits_value 0 (digits (n div 10)) = Some 0"
        by (simp add: digit_value_def)
      then have "n div 10 = 0" by (simp add: digits_value_digits)
      with False show False by simp
    qed
    with split higher show ?thesis by simp
  qed
qed

lemma parse_decimal_digits: "parse_decimal (digits n) = Some n"
proof -
  obtain c cs where "digits n = c # cs" "c = 0x30 \<longrightarrow> cs = []"
    using digits_head [of n] by blast
  then show ?thesis
    using digits_value_digits [of n] by (auto simp: parse_decimal_def)
qed

lemma parse_integer_Number_toString:
  "parse_integer (Number_toString (IntegerNumber n)) = Some n"
proof (cases "n < 0")
  case True
  then have "nat (- n) \<noteq> 0" by simp
  with True show ?thesis
    by (simp add: Number_toString.simps parse_integer_def js_def parse_decimal_digits)
next
  case False
  obtain c cs where "digits (nat n) = c # cs" "c \<noteq> 0x2D"
    using digits_head [of "nat n"] by blast
  with False show ?thesis
    using parse_decimal_digits [of "nat n"]
    by (simp add: Number_toString.simps parse_integer_def)
qed

lemma Number_toString_small:
  "Number_toString (IntegerNumber 0) = js ''0''"
  "Number_toString (IntegerNumber 1) = js ''1''"
  "Number_toString (IntegerNumber 15) = js ''15''"
  "Number_toString (IntegerNumber (- 3)) = js ''-3''"
  by (simp_all add: Number_toString.simps digits.simps [of 0] digits.simps [of "Suc 0"]
      digits.simps [of 3] digits.simps [of 15] js_def)

lemma js_append: "js a @ js b = js (a @ b)"
  by (simp add: js_def)

lemma ready_page: "page fixture_ready_state \<noteq> None"
  by (simp add: fixture_ready_state_def initial_state_def)

lemma no_news: "extract_news (Document []) = []"
  by (simp add: extract_news_def querySelector_def querySelectorAll_def)

section \<open>Reading the written text back\<close>

lemma unat_small: "n < 65536 \<Longrightarrow> unat (of_nat n :: 16 word) = n"
  by (simp only: unat_of_nat) simp

lemma hex_value_hex_digit: "d < 16 \<Longrightarrow> hex_value (hex_digit d) = Some d"
  by (simp add: hex_value_def hex_digit_def word_le_nat_alt unat_small del: of_nat_add)

lemma nibbles:
  "4096 * (u div 4096) + 256 * (u div 256 mod 16) + 16 * (u div 16 mod 16) + u mod 16 = (u::nat)"
proof -
  have a: "u div 16 div 16 = u div 256" and b: "u div 256 div 16 = u div 4096"
    by (simp_all add: div_mult2_eq [symmetric])
  have "u = 16 * (u div 16) + u mod 16" by simp
  moreover have "u div 16 = 16 * (u div 16 div 16) + u div 16 mod 16" by simp
  moreover have "u div 256 = 16 * (u div 256 div 16) + u div 256 mod 16" by simp
  ultimately show ?thesis unfolding a b by linarith
qed

lemma read_string_UnicodeEscape:
  "read_string (UnicodeEscape c @ rest) = read_more [c] (read_string rest)"
proof -
  have u: "unat c < 65536"
    using unsigned_less [of c, where 'a = nat] by simp
  then have small: "unat c div 4096 < 16" "unat c div 256 mod 16 < 16"
    "unat c div 16 mod 16 < 16" "unat c mod 16 < 16"
    by simp_all
  have whole: "(of_nat (4096 * (unat c div 4096) + 256 * (unat c div 256 mod 16)
      + 16 * (unat c div 16 mod 16) + unat c mod 16) :: 16 word) = c"
    by (simp only: nibbles) simp
  have escape: "escape_value 0x75 = None" "(0x5C :: 16 word) \<noteq> 0x22"
    by (simp_all add: escape_value_def)
  show ?thesis
    unfolding UnicodeEscape_def
    by (simp only: append_Cons append_Nil read_string.simps escape list.case
        hex_value_hex_digit [OF small(1)] hex_value_hex_digit [OF small(2)]
        hex_value_hex_digit [OF small(3)] hex_value_hex_digit [OF small(4)]
        option.case prod.case whole if_True if_False refl simp_thms)
qed

lemma read_string_quote_unit:
  "read_string (quote_unit c @ rest) = read_more [c] (read_string rest)"
proof -
  consider "c = 0x08" | "c = 0x09" | "c = 0x0A" | "c = 0x0C" | "c = 0x0D" | "c = 0x22"
    | "c = 0x5C"
    | "c \<notin> {0x08, 0x09, 0x0A, 0x0C, 0x0D, 0x22, 0x5C}"
      "c < 0x20 \<or> isLeadingSurrogate c \<or> isTrailingSurrogate c"
    | "c \<notin> {0x08, 0x09, 0x0A, 0x0C, 0x0D, 0x22, 0x5C}"
      "\<not> (c < 0x20 \<or> isLeadingSurrogate c \<or> isTrailingSurrogate c)"
    by blast
  then show ?thesis
  proof cases
    case 8
    then have "quote_unit c = UnicodeEscape c"
      by (simp add: quote_unit_def)
    then show ?thesis
      by (simp only: read_string_UnicodeEscape)
  next
    case 9
    then have "quote_unit c = [c]"
      by (simp add: quote_unit_def)
    with 9 show ?thesis
      by simp
  qed (simp_all add: quote_unit_def escape_value_def)
qed

lemma surrogate_plain:
  "isLeadingSurrogate c \<Longrightarrow> c \<noteq> 0x22 \<and> c \<noteq> 0x5C \<and> \<not> c < 0x20"
  by (auto simp: isLeadingSurrogate_def word_le_nat_alt word_less_nat_alt)

lemma read_string_quote_units:
  "read_string (quote_units s @ 0x22 # rest) = Some (s, rest)"
proof (induction s rule: quote_units.induct)
  case 1
  show ?case by simp
next
  case (2 c)
  have "read_string (quote_unit c @ 0x22 # rest) = Some ([c], rest)"
    by (simp only: read_string_quote_unit) (simp add: read_more_def)
  then show ?case by simp
next
  case (3 c d cs)
  show ?case
  proof (cases "isLeadingSurrogate c \<and> isTrailingSurrogate d")
    case True
    then have "quote_units (c # d # cs) = c # d # quote_units cs" by simp
    with True 3(1) show ?thesis
      using surrogate_plain [of c] by (simp add: read_more_def)
  next
    case False
    then have "quote_units (c # d # cs) = quote_unit c @ quote_units (d # cs)" by auto
    moreover have "read_string (quote_unit c @ quote_units (d # cs) @ 0x22 # rest)
        = Some (c # d # cs, rest)"
      using 3(2) [OF False]
      by (simp only: read_string_quote_unit) (simp add: read_more_def)
    ultimately show ?thesis by simp
  qed
qed

lemma skip_ws_ws: "list_all isJSONWhiteSpace w \<Longrightarrow> skip_ws (w @ s) = skip_ws s"
  by (induction w) (simp_all add: skip_ws_def)

lemma skip_ws_start: "\<not> isJSONWhiteSpace c \<Longrightarrow> skip_ws (c # s) = c # s"
  by (simp add: skip_ws_def)

lemma skip_ws_line: "list_all isJSONWhiteSpace w \<Longrightarrow> skip_ws (0x0A # w @ s) = skip_ws s"
  using skip_ws_ws [of "0x0A # w" s] by (simp add: isJSONWhiteSpace_def)

lemma not_ws:
  "\<not> isJSONWhiteSpace 0x5D" "\<not> isJSONWhiteSpace 0x7D" "\<not> isJSONWhiteSpace 0x2C"
  "\<not> isJSONWhiteSpace 0x22" "\<not> isJSONWhiteSpace 0x7B" "\<not> isJSONWhiteSpace 0x3A"
  by (simp_all add: isJSONWhiteSpace_def)

lemma gap_ws: "list_all isJSONWhiteSpace (js ''  '')"
  by (simp add: js_def isJSONWhiteSpace_def)

lemma starts_not_ws:
  "c = 0x22 \<or> c = 0x7B \<Longrightarrow> \<not> isJSONWhiteSpace c \<and> c \<noteq> 0x5D \<and> c \<noteq> 0x7D \<and> c \<noteq> 0x2C"
  by (auto simp: isJSONWhiteSpace_def)

lemma read_value_string:
  "0 < k \<Longrightarrow> read_value k (QuoteJSONString s @ rest) = Some (JString s, rest)"
  by (cases k) (simp_all add: QuoteJSONString_def read_string_quote_units)

lemma join_starts:
  assumes "xs \<noteq> []" and "\<And>x. x \<in> set xs \<Longrightarrow> \<exists>c cs. text x = c # cs \<and> (c = 0x22 \<or> c = 0x7B)"
  shows "\<exists>c cs. join sep (map text xs) = c # cs \<and> (c = 0x22 \<or> c = 0x7B)"
proof -
  obtain x xs' where xs: "xs = x # xs'" using assms(1) by (cases xs) auto
  then obtain c cs where "text x = c # cs" "c = 0x22 \<or> c = 0x7B"
    using assms(2) [of x] by auto
  then show ?thesis unfolding xs by (cases xs') auto
qed

lemma read_elements_join:
  assumes "xs \<noteq> []"
    and "\<And>x k r. x \<in> set xs \<Longrightarrow> 2 * length (text x @ r) \<le> k \<Longrightarrow>
           read_value k (text x @ r) = Some (val x, r)"
    and "\<And>x. x \<in> set xs \<Longrightarrow> \<exists>c cs. text x = c # cs \<and> (c = 0x22 \<or> c = 0x7B)"
    and "list_all isJSONWhiteSpace indent" and "list_all isJSONWhiteSpace stepback"
    and "2 * length (join (0x2C # 0x0A # indent) (map text xs) @ 0x0A # stepback @ 0x5D # rest) < k"
  shows "read_elements k (join (0x2C # 0x0A # indent) (map text xs) @ 0x0A # stepback @ 0x5D # rest)
     = Some (map val xs, rest)"
  using assms
proof (induction xs arbitrary: k rule: list_nonempty_induct)
  case (single x)
  from single(5) obtain k' where k: "k = Suc k'" by (cases k) auto
  have "read_value k' (text x @ 0x0A # stepback @ 0x5D # rest)
      = Some (val x, 0x0A # stepback @ 0x5D # rest)"
    using single(5) k by (intro single(1)) auto
  moreover have "skip_ws (0x0A # stepback @ 0x5D # rest) = 0x5D # rest"
    using single(4) by (simp add: skip_ws_line skip_ws_start not_ws)
  ultimately show ?case by (simp add: k)
next
  case (cons x xs)
  let ?sep = "0x2C # 0x0A # indent"
  let ?tail = "join ?sep (map text xs) @ 0x0A # stepback @ 0x5D # rest"
  from cons(7) obtain k' where k: "k = Suc k'" by (cases k) auto
  have whole: "join ?sep (map text (x # xs)) @ 0x0A # stepback @ 0x5D # rest
      = text x @ 0x2C # 0x0A # indent @ ?tail"
    using cons(1) by (simp add: join_Cons)
  have first: "read_value k' (text x @ 0x2C # 0x0A # indent @ ?tail)
      = Some (val x, 0x2C # 0x0A # indent @ ?tail)"
    using cons(7) k unfolding whole by (intro cons(3)) auto
  obtain c cs where start: "join ?sep (map text xs) = c # cs" "c = 0x22 \<or> c = 0x7B"
    using join_starts [OF cons(1), of "text" ?sep] cons(4) by auto
  have skip: "skip_ws (0x0A # indent @ ?tail) = ?tail"
    using cons(5) start starts_not_ws [of c] by (simp add: skip_ws_line skip_ws_start)
  have rest: "read_elements k' ?tail = Some (map val xs, rest)"
    using cons(7) k unfolding whole
    by (intro cons(2) cons(3) cons(4) cons(5) cons(6)) auto
  show ?case
    unfolding whole k using first skip rest
    by (simp add: skip_ws_start not_ws)
qed

lemma read_value_array:
  assumes "\<And>x k r. x \<in> set xs \<Longrightarrow> 2 * length (text x @ r) \<le> k \<Longrightarrow>
           read_value k (text x @ r) = Some (val x, r)"
    and "\<And>x. x \<in> set xs \<Longrightarrow> \<exists>c cs. text x = c # cs \<and> (c = 0x22 \<or> c = 0x7B)"
    and "list_all isJSONWhiteSpace stepback"
    and "2 * length (SerializeJSONArray (js ''  '') stepback (map text xs) @ rest) \<le> k"
  shows "read_value k (SerializeJSONArray (js ''  '') stepback (map text xs) @ rest)
     = Some (JArray (map val xs), rest)"
proof (cases "xs = []")
  case True
  with assms(4) obtain k' where "k = Suc k'"
    by (cases k) (auto simp: SerializeJSONArray_def js_def)
  with True show ?thesis
    by (simp add: SerializeJSONArray_def js_def skip_ws_start not_ws)
next
  case False
  let ?indent = "stepback @ js ''  ''"
  let ?elems = "join (0x2C # 0x0A # ?indent) (map text xs) @ 0x0A # stepback @ 0x5D # rest"
  have whole: "SerializeJSONArray (js ''  '') stepback (map text xs) @ rest
      = 0x5B # 0x0A # ?indent @ ?elems"
    using False by (simp add: SerializeJSONArray_def Let_def js_def)
  from assms(4) obtain k' where k: "k = Suc k'"
    unfolding whole by (cases k) auto
  have ws: "list_all isJSONWhiteSpace ?indent"
    using assms(3) gap_ws by simp
  obtain c cs where start: "join (0x2C # 0x0A # ?indent) (map text xs) = c # cs"
    "c = 0x22 \<or> c = 0x7B"
    using join_starts [OF False, of "text"] assms(2) by blast
  have skip: "skip_ws (0x0A # ?indent @ ?elems) = ?elems"
    using start starts_not_ws [of c] skip_ws_line [OF ws, of ?elems]
    by (simp add: skip_ws_start)
  have elems: "read_elements k' ?elems = Some (map val xs, rest)"
    using assms(4) unfolding whole k
    by (intro read_elements_join False assms(1) assms(2) ws assms(3)) auto
  show ?thesis
    unfolding whole k using skip elems start starts_not_ws [of c]
    by simp
qed

lemma QuoteJSONString_starts: "\<exists>c cs. QuoteJSONString s = c # cs \<and> (c = 0x22 \<or> c = 0x7B)"
  by (simp add: QuoteJSONString_def)

lemma read_value_string_fuel:
  "2 * length (QuoteJSONString s @ r) \<le> k \<Longrightarrow>
     read_value k (QuoteJSONString s @ r) = Some (JString s, r)"
  by (rule read_value_string) (simp add: QuoteJSONString_def)

lemma read_members_step:
  assumes "read_value k (vtext @ 0x2C # 0x0A # indent @ QuoteJSONString key @ later)
      = Some (v, 0x2C # 0x0A # indent @ QuoteJSONString key @ later)"
    and "\<exists>c cs. vtext = c # cs \<and> (c = 0x22 \<or> c = 0x5B)"
    and "list_all isJSONWhiteSpace indent"
  shows "read_members (Suc k)
       (QuoteJSONString name @ 0x3A # 0x20 # vtext @ 0x2C # 0x0A # indent
          @ QuoteJSONString key @ later)
     = map_option (\<lambda>(ms, rest'). ((name, v) # ms, rest'))
         (read_members k (QuoteJSONString key @ later))"
proof -
  obtain c cs where vtext: "vtext = c # cs" "c = 0x22 \<or> c = 0x5B"
    using assms(2) by blast
  then have c: "\<not> isJSONWhiteSpace c" by (auto simp: isJSONWhiteSpace_def)
  have after_colon: "skip_ws (0x20 # vtext @ 0x2C # 0x0A # indent @ QuoteJSONString key @ later)
      = vtext @ 0x2C # 0x0A # indent @ QuoteJSONString key @ later"
    using c unfolding vtext by (simp add: skip_ws_def isJSONWhiteSpace_def)
  have after_comma: "skip_ws (0x0A # indent @ QuoteJSONString key @ later)
      = QuoteJSONString key @ later"
    using assms(3) by (simp add: skip_ws_line QuoteJSONString_def skip_ws_start not_ws)
  show ?thesis
    using assms(1) after_colon after_comma
    by (simp add: QuoteJSONString_def [of name] read_string_quote_units skip_ws_start not_ws)
qed

lemma read_members_string_step:
  assumes "list_all isJSONWhiteSpace indent"
  shows "read_members (Suc (Suc k))
       (QuoteJSONString name @ 0x3A # 0x20 # QuoteJSONString s @ 0x2C # 0x0A # indent
          @ QuoteJSONString key @ later)
     = map_option (\<lambda>(ms, rest'). ((name, JString s) # ms, rest'))
         (read_members (Suc k) (QuoteJSONString key @ later))"
  by (rule read_members_step [OF read_value_string _ assms])
     (simp_all add: QuoteJSONString_def)

lemma read_members_last:
  assumes "read_value k (vtext @ 0x0A # stepback @ 0x7D # rest)
      = Some (v, 0x0A # stepback @ 0x7D # rest)"
    and "\<exists>c cs. vtext = c # cs \<and> (c = 0x22 \<or> c = 0x5B)"
    and "list_all isJSONWhiteSpace stepback"
  shows "read_members (Suc k)
       (QuoteJSONString name @ 0x3A # 0x20 # vtext @ 0x0A # stepback @ 0x7D # rest)
     = Some ([(name, v)], rest)"
proof -
  obtain c cs where vtext: "vtext = c # cs" "c = 0x22 \<or> c = 0x5B"
    using assms(2) by blast
  then have c: "\<not> isJSONWhiteSpace c" by (auto simp: isJSONWhiteSpace_def)
  have after_colon: "skip_ws (0x20 # vtext @ 0x0A # stepback @ 0x7D # rest)
      = vtext @ 0x0A # stepback @ 0x7D # rest"
    using c unfolding vtext by (simp add: skip_ws_def isJSONWhiteSpace_def)
  have after_value: "skip_ws (0x0A # stepback @ 0x7D # rest) = 0x7D # rest"
    using assms(3) by (simp add: skip_ws_line skip_ws_start not_ws)
  show ?thesis
    using assms(1) after_colon after_value
    by (simp add: QuoteJSONString_def [of name] read_string_quote_units skip_ws_start not_ws)
qed

lemma read_value_object:
  assumes "read_members k (0x22 # cs) = Some (ms, rest)"
    and "list_all isJSONWhiteSpace indent"
  shows "read_value (Suc k) (0x7B # 0x0A # indent @ 0x22 # cs) = Some (JObject ms, rest)"
  using assms skip_ws_line [OF assms(2), of "0x22 # cs"]
  by (simp add: skip_ws_start not_ws del: read_members.simps)

lemma array_starts:
  "\<exists>c cs. SerializeJSONArray (js ''  '') stepback partial = c # cs \<and> (c = 0x22 \<or> c = 0x5B)"
  by (simp add: SerializeJSONArray_def Let_def js_def)

lemma read_value_item:
  assumes "2 * length (stringify_item (js ''  '') (js ''  '') item @ rest) \<le> k"
  shows "read_value k (stringify_item (js ''  '') (js ''  '') item @ rest)
     = Some (item_json item, rest)"
proof -
  let ?in = "js ''  '' @ js ''  ''"
  let ?tags = "SerializeJSONArray (js ''  '') ?in (map QuoteJSONString (tags item))"
  let ?m5 = "QuoteJSONString (js ''tags'') @ 0x3A # 0x20 # ?tags @ 0x0A # js ''  '' @ 0x7D # rest"
  let ?m4 = "QuoteJSONString (js ''link'') @ 0x3A # 0x20 # QuoteJSONString (link item)
      @ 0x2C # 0x0A # ?in @ ?m5"
  let ?m3 = "QuoteJSONString (js ''title'') @ 0x3A # 0x20 # QuoteJSONString (title item)
      @ 0x2C # 0x0A # ?in @ ?m4"
  let ?m2 = "QuoteJSONString (js ''time'') @ 0x3A # 0x20 # QuoteJSONString (time item)
      @ 0x2C # 0x0A # ?in @ ?m3"
  let ?m1 = "QuoteJSONString (js ''date'') @ 0x3A # 0x20 # QuoteJSONString (date item)
      @ 0x2C # 0x0A # ?in @ ?m2"
  have whole: "stringify_item (js ''  '') (js ''  '') item @ rest = 0x7B # 0x0A # ?in @ ?m1"
    by (simp add: stringify_item_def SerializeJSONObject_def Let_def js_def)
  have ws: "list_all isJSONWhiteSpace ?in" "list_all isJSONWhiteSpace (js ''  '')"
    using gap_ws by simp_all
  define k6 where "k6 = k - 6"
  have long: "2 * length (?tags @ 0x0A # js ''  '' @ 0x7D # rest) + 6 \<le> k"
    using assms unfolding whole by (simp add: QuoteJSONString_def)
  then have k: "k = Suc (Suc (Suc (Suc (Suc (Suc k6)))))"
    and fuel: "2 * length (?tags @ 0x0A # js ''  '' @ 0x7D # rest) \<le> k6"
    by (simp_all add: k6_def)
  have tags: "read_value k6 (?tags @ 0x0A # js ''  '' @ 0x7D # rest)
      = Some (JArray (map JString (tags item)), 0x0A # js ''  '' @ 0x7D # rest)"
    using fuel
    by (intro read_value_array read_value_string_fuel QuoteJSONString_starts ws) auto
  have m5: "read_members (Suc k6) ?m5 = Some ([(js ''tags'', JArray (map JString (tags item)))], rest)"
    by (rule read_members_last [OF tags array_starts ws(2)])
  have m4: "read_members (Suc (Suc k6)) ?m4
      = Some ([(js ''link'', JString (link item)),
               (js ''tags'', JArray (map JString (tags item)))], rest)"
    by (simp only: read_members_string_step [OF ws(1)] m5) simp
  have m3: "read_members (Suc (Suc (Suc k6))) ?m3
      = Some ([(js ''title'', JString (title item)), (js ''link'', JString (link item)),
               (js ''tags'', JArray (map JString (tags item)))], rest)"
    by (simp only: read_members_string_step [OF ws(1)] m5) simp
  have m2: "read_members (Suc (Suc (Suc (Suc k6)))) ?m2
      = Some ([(js ''time'', JString (time item)), (js ''title'', JString (title item)),
               (js ''link'', JString (link item)),
               (js ''tags'', JArray (map JString (tags item)))], rest)"
    by (simp only: read_members_string_step [OF ws(1)] m5) simp
  have m1: "read_members (Suc (Suc (Suc (Suc (Suc k6))))) ?m1
      = Some ([(js ''date'', JString (date item)), (js ''time'', JString (time item)),
               (js ''title'', JString (title item)), (js ''link'', JString (link item)),
               (js ''tags'', JArray (map JString (tags item)))], rest)"
    by (simp only: read_members_string_step [OF ws(1)] m5) simp
  obtain cs where cs: "?m1 = 0x22 # cs"
    by (simp add: QuoteJSONString_def [of "js ''date''"])
  have "read_value (Suc (Suc (Suc (Suc (Suc (Suc k6)))))) (0x7B # 0x0A # ?in @ ?m1)
      = Some (item_json item, rest)"
    unfolding cs item_json_def by (rule read_value_object [OF m1 [unfolded cs] ws(1)])
  then show ?thesis unfolding whole k .
qed

lemma stringify_item_starts:
  "\<exists>c cs. stringify_item (js ''  '') (js ''  '') item = c # cs \<and> (c = 0x22 \<or> c = 0x7B)"
  by (simp add: stringify_item_def SerializeJSONObject_def Let_def js_def)

lemma JSON_parse_JSON_stringify: "JSON_parse (JSON_stringify data) = Some (items_json data)"
proof -
  let ?text = "SerializeJSONArray (js ''  '') [] (map (stringify_item (js ''  '') (js ''  '')) data)"
  have "\<exists>c cs. ?text = c # cs \<and> c = 0x5B"
    by (simp add: SerializeJSONArray_def Let_def js_def)
  then have skip: "skip_ws ?text = ?text"
    by (auto simp: skip_ws_start isJSONWhiteSpace_def)
  have "read_value (2 * length ?text) (?text @ []) = Some (JArray (map item_json data), [])"
    by (intro read_value_array read_value_item stringify_item_starts) simp_all
  moreover have "skip_ws [] = []"
    by (simp add: skip_ws_def)
  ultimately show ?thesis
    by (simp add: JSON_parse_def JSON_stringify_def Let_def skip items_json_def)
qed

section \<open>The lines of the written text\<close>

lemma join_append:
  "xs \<noteq> [] \<Longrightarrow> ys \<noteq> [] \<Longrightarrow> join sep (xs @ ys) = join sep xs @ sep @ join sep ys"
  by (induction xs rule: list_nonempty_induct) (simp_all add: join_Cons)

lemma join_last_suffix:
  "b \<noteq> [] \<Longrightarrow> join sep (butlast b @ [last b @ c]) = join sep b @ c"
  by (induction b rule: list_nonempty_induct) (simp_all add: join_Cons)

lemma with_commas_not_Nil:
  "blocks \<noteq> [] \<Longrightarrow> \<forall>b\<in>set blocks. b \<noteq> [] \<Longrightarrow> with_commas blocks \<noteq> []"
  by (induction blocks rule: with_commas.induct) auto

lemma join_with_commas:
  "\<forall>b\<in>set blocks. b \<noteq> [] \<Longrightarrow>
     join [0x0A] (with_commas blocks) = join (js '','' @ [0x0A]) (map (join [0x0A]) blocks)"
proof (induction blocks rule: with_commas.induct)
  case 1
  show ?case by simp
next
  case (2 block)
  show ?case by simp
next
  case (3 block following blocks)
  then have rest: "with_commas (following # blocks) \<noteq> []"
    by (intro with_commas_not_Nil) auto
  have "join [0x0A] (with_commas (block # following # blocks))
      = join [0x0A] (butlast block @ [last block @ js '','']) @ [0x0A]
        @ join [0x0A] (with_commas (following # blocks))"
    using rest by (simp add: join_append del: with_commas.simps(3) join.simps)
       (simp add: join_append [of "butlast block @ [last block @ js '','']", simplified])
  with 3 show ?case
    by (simp add: join_last_suffix)
qed

lemma join_map_indent:
  "xs \<noteq> [] \<Longrightarrow> join sep (map (\<lambda>p. ind @ p) xs) = ind @ join (sep @ ind) xs"
  by (induction xs rule: list_nonempty_induct) (simp_all add: join_Cons)

lemma spaces_js: "spaces 2 = js ''  ''" "spaces 4 = js ''  '' @ js ''  ''"
  "spaces 6 = (js ''  '' @ js ''  '') @ js ''  ''"
  by (simp_all add: spaces_def js_def eval_nat_numeral)

lemma gap_not_Nil: "js ''  '' \<noteq> []"
  by (simp add: js_def)

lemma join_tags_lines:
  "join [0x0A] (tags_lines ts)
     = SerializeJSONArray (js ''  '') (js ''  '' @ js ''  '') (map QuoteJSONString ts)"
proof (cases "ts = []")
  case True
  then show ?thesis by (simp add: tags_lines_def SerializeJSONArray_def)
next
  case False
  let ?blocks = "map (\<lambda>t. [spaces 6 @ QuoteJSONString t]) ts"
  have blocks: "\<forall>b\<in>set ?blocks. b \<noteq> []" "?blocks \<noteq> []"
    using False by auto
  have inner: "join [0x0A] (with_commas ?blocks)
      = spaces 6 @ join (js '','' @ [0x0A] @ spaces 6) (map QuoteJSONString ts)"
    using False join_map_indent [of "map QuoteJSONString ts" "js '','' @ [0x0A]" "spaces 6"]
    by (simp add: join_with_commas [OF blocks(1)] comp_def)
  have "join [0x0A] (tags_lines ts)
      = js ''['' @ [0x0A] @ join [0x0A] (with_commas ?blocks) @ [0x0A] @ spaces 4 @ js '']''"
    using False with_commas_not_Nil [OF blocks(2) blocks(1)]
    by (simp add: tags_lines_def join_Cons join_append)
  then show ?thesis
    using False gap_not_Nil unfolding inner
    by (simp add: SerializeJSONArray_def Let_def spaces_js)
qed

lemma join_hd_prefix:
  assumes "T \<noteq> []"
  shows "join sep ((p @ hd T) # tl T) = p @ join sep T"
proof (cases T)
  case Nil
  with assms show ?thesis by simp
next
  case (Cons a list)
  then show ?thesis by (cases list) simp_all
qed

lemma tags_lines_not_Nil: "tags_lines ts \<noteq> []"
  by (simp add: tags_lines_def)

lemma join_item_lines:
  "join [0x0A] (item_lines item) = spaces 2 @ stringify_item (js ''  '') (js ''  '') item"
proof -
  let ?T = "tags_lines (tags item)"
  let ?p = "spaces 4 @ QuoteJSONString (js ''tags'') @ js '': ''"
  have tags: "join [0x0A] ((?p @ hd ?T) # tl ?T)
      = ?p @ SerializeJSONArray (js ''  '') (js ''  '' @ js ''  '') (map QuoteJSONString (tags item))"
    by (simp only: join_hd_prefix [OF tags_lines_not_Nil] join_tags_lines)
  have split: "item_lines item =
     [spaces 2 @ js ''{'',
      member_line ''date'' (QuoteJSONString (date item)) @ js '','',
      member_line ''time'' (QuoteJSONString (time item)) @ js '','',
      member_line ''title'' (QuoteJSONString (title item)) @ js '','',
      member_line ''link'' (QuoteJSONString (link item)) @ js '','']
     @ ((?p @ hd ?T) # tl ?T) @ [spaces 2 @ js ''}'']"
    by (simp add: item_lines_def member_line_def)
  have "join [0x0A] (item_lines item) =
      spaces 2 @ js ''{'' @ [0x0A]
      @ member_line ''date'' (QuoteJSONString (date item)) @ js '','' @ [0x0A]
      @ member_line ''time'' (QuoteJSONString (time item)) @ js '','' @ [0x0A]
      @ member_line ''title'' (QuoteJSONString (title item)) @ js '','' @ [0x0A]
      @ member_line ''link'' (QuoteJSONString (link item)) @ js '','' @ [0x0A]
      @ join [0x0A] ((?p @ hd ?T) # tl ?T) @ [0x0A] @ spaces 2 @ js ''}''"
    unfolding split
    by (subst join_append, simp, simp, subst join_append, simp, simp)
       (simp add: join_Cons del: join.simps(3))
  then show ?thesis
    using gap_not_Nil unfolding tags
    by (simp add: stringify_item_def SerializeJSONObject_def Let_def member_line_def spaces_js
        join_Cons js_def)
qed

lemma item_lines_not_Nil: "item_lines item \<noteq> []"
  by (simp add: item_lines_def)

lemma JSON_stringify_pretty_lines:
  "JSON_stringify data = join [0x0A] (pretty_lines data)"
proof (cases "data = []")
  case True
  then show ?thesis
    by (simp add: JSON_stringify_def pretty_lines_def SerializeJSONArray_def)
next
  case False
  let ?blocks = "map item_lines data"
  have blocks: "\<forall>b\<in>set ?blocks. b \<noteq> []" "?blocks \<noteq> []"
    using False item_lines_not_Nil by auto
  have inner: "join [0x0A] (with_commas ?blocks)
      = spaces 2 @ join (js '','' @ [0x0A] @ spaces 2)
          (map (stringify_item (js ''  '') (js ''  '')) data)"
    using False
      join_map_indent [of "map (stringify_item (js ''  '') (js ''  '')) data"
        "js '','' @ [0x0A]" "spaces 2"]
    by (simp add: join_with_commas [OF blocks(1)] comp_def join_item_lines)
  have "join [0x0A] (pretty_lines data)
      = js ''['' @ [0x0A] @ join [0x0A] (with_commas ?blocks) @ [0x0A] @ js '']''"
    using False with_commas_not_Nil [OF blocks(2) blocks(1)]
    by (simp add: pretty_lines_def join_Cons join_append)
  then show ?thesis
    using False gap_not_Nil unfolding inner
    by (simp add: JSON_stringify_def SerializeJSONArray_def Let_def spaces_js)
qed

lemma hex_digit_not_LF: "d < 16 \<Longrightarrow> hex_digit d \<noteq> 0x0A"
  using hex_value_hex_digit [of d] by (auto simp: hex_value_def)

lemma one_line_UnicodeEscape: "one_line (UnicodeEscape c)"
proof -
  have u: "unat c < 65536"
    using unsigned_less [of c, where 'a = nat] by simp
  then have "unat c div 4096 < 16" by simp
  then show ?thesis
    by (simp add: one_line_def UnicodeEscape_def hex_digit_not_LF)
qed

lemma one_line_quote_unit: "one_line (quote_unit c)"
  using one_line_UnicodeEscape [of c]
  by (auto simp: quote_unit_def one_line_def)

lemma surrogate_not_LF:
  "isLeadingSurrogate c \<Longrightarrow> c \<noteq> 0x0A" "isTrailingSurrogate c \<Longrightarrow> c \<noteq> 0x0A"
  by (auto simp: isLeadingSurrogate_def isTrailingSurrogate_def)

lemma one_line_append [simp]: "one_line (a @ b) \<longleftrightarrow> one_line a \<and> one_line b"
  by (auto simp: one_line_def)

lemma one_line_quote_units: "one_line (quote_units s)"
proof (induction s rule: quote_units.induct)
  case 1
  show ?case by (simp add: one_line_def)
next
  case (2 c)
  show ?case by (simp add: one_line_quote_unit)
next
  case (3 c d cs)
  then show ?case
    using surrogate_not_LF [of c] surrogate_not_LF [of d] one_line_quote_unit [of c]
    by (auto simp: one_line_def)
qed

lemma one_line_QuoteJSONString: "one_line (QuoteJSONString s)"
  using one_line_quote_units [of s] by (simp add: QuoteJSONString_def one_line_def)

lemma one_line_spaces: "one_line (spaces n)"
  by (simp add: one_line_def spaces_def)

lemma one_line_with_commas:
  "list_all (\<lambda>b. b \<noteq> [] \<and> list_all one_line b) blocks \<Longrightarrow>
     list_all one_line (with_commas blocks)"
proof (induction blocks rule: with_commas.induct)
  case 1
  show ?case by simp
next
  case (2 block)
  then show ?case by simp
next
  case (3 block following blocks)
  from 3(2) have block: "block \<noteq> []" "list_all one_line block"
    by simp_all
  from block(1) have "block = butlast block @ [last block]" by simp
  with block(2) have "list_all one_line (butlast block @ [last block])" by simp
  then have "list_all one_line (butlast block @ [last block @ js '',''])"
    by (simp add: one_line_def js_def)
  with 3 show ?case by simp
qed

lemma one_line_tags_lines: "list_all one_line (tags_lines ts)"
proof -
  have "list_all (\<lambda>b. b \<noteq> [] \<and> list_all one_line b)
      (map (\<lambda>t. [spaces 6 @ QuoteJSONString t]) ts)"
    by (induction ts) (simp_all add: one_line_spaces one_line_QuoteJSONString)
  then show ?thesis
    using one_line_with_commas [of "map (\<lambda>t. [spaces 6 @ QuoteJSONString t]) ts"]
    by (simp add: tags_lines_def one_line_spaces) (simp add: one_line_def js_def)
qed

lemma one_line_item_lines: "list_all one_line (item_lines item)"
proof -
  have T: "list_all one_line (tags_lines (tags item))"
    by (rule one_line_tags_lines)
  obtain l ls where ls: "tags_lines (tags item) = l # ls"
    using tags_lines_not_Nil [of "tags item"] by (cases "tags_lines (tags item)") auto
  have lit: "one_line (js ''{'')" "one_line (js ''}'')" "one_line (js '','')" "one_line (js '': '')"
    by (simp_all add: one_line_def js_def)
  show ?thesis
    using T unfolding ls
    by (simp add: item_lines_def member_line_def one_line_spaces one_line_QuoteJSONString lit ls)
qed

lemma one_line_pretty_lines: "list_all one_line (pretty_lines data)"
proof -
  have "list_all (\<lambda>b. b \<noteq> [] \<and> list_all one_line b) (map item_lines data)"
    by (induction data) (simp_all add: one_line_item_lines item_lines_not_Nil)
  then show ?thesis
    using one_line_with_commas [of "map item_lines data"]
    by (simp add: pretty_lines_def) (simp add: one_line_def js_def)
qed

section \<open>The extracted records\<close>

text \<open>
  C1. Where the navigation and the reading of the page succeed and the page has the
  listing container, \<open>getContent\<close> returns exactly the records of the entries (the
  \<open>.announce__item\<close> descendants of the container, in document order) that have a date
  element, a time element and a link element: one record for each such entry, none for
  an entry that lacks any of the three, in the order of the entries. On the fixture of
  the scenario (two well-formed entries around one without a time element) page 1 gives
  the two records, in document order.
\<close>

theorem getContent_returns_complete_entries_in_order:
  assumes "page s \<noteq> None"
    and "goto_result env = None"
    and "content_result env = Inr html"
    and "evaluate_document env = Inr document"
    and "querySelector [js ''announce'', js ''announce_articles''] document = Some announceList"
  shows "fst (getContent env n s) =
     Inr (map (\<lambda>item. news_item (the (querySelector [js ''announce__date''] item))
                          (the (querySelector [js ''announce__time''] item))
                          (the (querySelector [js ''announce__link''] item))
                          (querySelector [js ''announce__meta-tags''] item))
       (filter (\<lambda>item. querySelector [js ''announce__date''] item \<noteq> None
                      \<and> querySelector [js ''announce__time''] item \<noteq> None
                      \<and> querySelector [js ''announce__link''] item \<noteq> None)
          (querySelectorAll [js ''announce__item''] announceList)))"
  using assms by (simp add: getContent_result extract_news_def fold_announce_item)

theorem getContent_returns_complete_entries_in_order_witness:
  "fst (getContent (fixture_env fixture_document) (IntegerNumber 1) fixture_ready_state) =
     Inr [\<lparr> date = js ''1 May'', time = js ''10:00'', title = js ''First'',
            link = js ''https://mid.ru/a'', tags = [js ''Diplomacy'', js ''Europe''] \<rparr>,
          \<lparr> date = js ''3 May'', time = js ''12:30'', title = js ''Third'',
            link = js ''https://mid.ru/c'', tags = [] \<rparr>]"
proof -
  have container: "querySelector [js ''announce'', js ''announce_articles''] fixture_document
      = Some (hd (descendants fixture_document))"
    by (simp add: fixture_document_def querySelector_def querySelectorAll_def js_def)
  have goes: "goto_result (fixture_env fixture_document) = None"
    and reads: "content_result (fixture_env fixture_document) = Inr (js ''<html></html>'')"
    and holds: "evaluate_document (fixture_env fixture_document) = Inr fixture_document"
    by (simp_all add: fixture_env_def)
  show ?thesis
    unfolding getContent_returns_complete_entries_in_order
      [OF ready_page goes reads holds container]
    by (simp add: fixture_document_def querySelector_def querySelectorAll_def news_item_def
        tags_value_def str_or_def arr_or_def String_split_def String_trim_def
        isWhiteSpace_def js_def)
qed

section \<open>Navigation\<close>

text \<open>
  C2. On a fetcher that has its page, \<open>getContent\<close> navigates exactly once. For an
  integer page number \<open>n \<ge> 2\<close> (up to \<open>2^53\<close>, the integers a double holds exactly)
  the address is the listing URL followed by \<open>?PAGEN_1=\<close> and a text that is read
  back as \<open>n\<close>: its decimal numeral. For a number that is not such an integer (a
  fraction, a larger magnitude) the parameter carries what the language prints for it. For page number 1 the address
  is the bare listing URL, with no query parameter.
\<close>

theorem getContent_listing_url:
  assumes "page s \<noteq> None"
  shows "(2 \<le> n \<and> n \<le> 2 ^ 53 \<longrightarrow>
            filter is_navigation (trace (snd (getContent env (IntegerNumber n) s)))
              = filter is_navigation (trace s)
                @ [Goto (js ''https://mid.ru/ru/foreign_policy/news/?PAGEN_1=''
                         @ Number_toString (IntegerNumber n))]
            \<and> parse_integer (Number_toString (IntegerNumber n)) = Some n)
       \<and> (is_Number (OtherNumber printed) \<longrightarrow>
            filter is_navigation (trace (snd (getContent env (OtherNumber printed) s)))
              = filter is_navigation (trace s)
                @ [Goto (js ''https://mid.ru/ru/foreign_policy/news/?PAGEN_1='' @ printed)])
       \<and> filter is_navigation (trace (snd (getContent env (IntegerNumber 1) s)))
              = filter is_navigation (trace s) @ [Goto (js ''https://mid.ru/ru/foreign_policy/news/'')]"
proof -
  have nav: "filter is_navigation (trace (snd (getContent env k s)))
      = filter is_navigation (trace s)
        @ [Goto (if k = IntegerNumber 1 then js ''https://mid.ru/ru/foreign_policy/news/''
                 else js ''https://mid.ru/ru/foreign_policy/news/?PAGEN_1='' @ Number_toString k)]"
    for k
    using getContent_trace [OF assms, of env k] by (auto simp: filter_none)
  show ?thesis
    using nav [of "IntegerNumber n"] nav [of "OtherNumber printed"] nav [of "IntegerNumber 1"]
    by (simp add: parse_integer_Number_toString)
qed

theorem getContent_listing_url_witness:
  "filter is_navigation
     (trace (snd (getContent (fixture_env (Document [])) (IntegerNumber 15) fixture_ready_state)))
     = [Goto (js ''https://mid.ru/ru/foreign_policy/news/?PAGEN_1=15'')]
   \<and> parse_integer (js ''15'') = Some 15
   \<and> filter is_navigation
     (trace (snd (getContent (fixture_env (Document [])) (OtherNumber (js ''2.5''))
        fixture_ready_state)))
     = [Goto (js ''https://mid.ru/ru/foreign_policy/news/?PAGEN_1=2.5'')]
   \<and> filter is_navigation
     (trace (snd (getContent (fixture_env (Document [])) (IntegerNumber 1) fixture_ready_state)))
     = [Goto (js ''https://mid.ru/ru/foreign_policy/news/'')]"
proof -
  have fraction: "is_Number (OtherNumber (js ''2.5''))"
    by (simp add: parse_integer_def parse_decimal_def digit_value_def js_def)
  show ?thesis
    using getContent_listing_url [OF ready_page, of 15 "fixture_env (Document [])" "js ''2.5''"]
      fraction
    by (simp add: Number_toString_small js_append fixture_ready_state_def initial_state_def)
qed

section \<open>Tags\<close>

text \<open>
  C3, as amended. The tags of an entry are the pieces of the trimmed text of its tags
  element, split at every \<open>", "\<close>: joining them with \<open>", "\<close> gives the trimmed text
  back, and no tag contains \<open>", "\<close>. The text \<open>"Diplomacy, Europe, Bilateral"\<close> yields
  the three tags in order. An empty tags element yields the one-element sequence holding
  the empty string, not the empty sequence.
\<close>

theorem tags_split_on_comma_space:
  "tags_value (Some (Element cs h [Text (js ''Diplomacy, Europe, Bilateral'')]))
     = [js ''Diplomacy'', js ''Europe'', js ''Bilateral'']
   \<and> tags_value (Some (Element cs h [])) = [js '''']
   \<and> join (js '', '') (tags_value (Some (Element cs h kids)))
     = String_trim (textOf (Element cs h kids))
   \<and> (\<forall>tag\<in>set (tags_value (Some (Element cs h kids))). \<not> String_includes tag (js '', ''))"
proof -
  have three: "split_from (js '', '') [] (String_trim (js ''Diplomacy, Europe, Bilateral''))
      = [js ''Diplomacy'', js ''Europe'', js ''Bilateral'']"
    by (simp add: String_trim_def isWhiteSpace_def js_def)
  have none: "split_from (js '', '') [] (String_trim []) = [js '''']"
    by (simp add: String_trim_def js_def)
  have pieces: "\<forall>tag\<in>set (split_from (js '', '') [] t). \<not> String_includes tag (js '', '')"
    for t
    using split_from_pieces [of "js '', ''" "[]" t] by (simp add: comma_space_not_Nil)
  show ?thesis
    unfolding tags_value_Element using three none pieces
    by (simp add: join_split_from comma_space_not_Nil)
qed

theorem tags_split_on_comma_space_witness:
  "tags_value (Some (Element [js ''announce__meta-tags''] []
       [Text (js '' Asia, Trade''), Text (js '', Visits '')]))
     = [js ''Asia'', js ''Trade'', js ''Visits'']
   \<and> join (js '', '') [js ''Asia'', js ''Trade'', js ''Visits''] = js ''Asia, Trade, Visits''
   \<and> \<not> String_includes (js ''Asia'') (js '', '')
   \<and> \<not> String_includes (js ''Trade'') (js '', '')
   \<and> \<not> String_includes (js ''Visits'') (js '', '')"
proof -
  have tags: "tags_value (Some (Element [js ''announce__meta-tags''] []
       [Text (js '' Asia, Trade''), Text (js '', Visits '')]))
     = [js ''Asia'', js ''Trade'', js ''Visits'']"
    by (simp add: tags_value_Element String_trim_def isWhiteSpace_def js_def)
  have trimmed: "String_trim (textOf (Element [js ''announce__meta-tags''] []
       [Text (js '' Asia, Trade''), Text (js '', Visits '')])) = js ''Asia, Trade, Visits''"
    by (simp add: String_trim_def isWhiteSpace_def js_def)
  show ?thesis
    using tags_split_on_comma_space [of "[js ''announce__meta-tags'']" "[]"
        "[Text (js '' Asia, Trade''), Text (js '', Visits '')]"]
    unfolding tags trimmed by simp
qed

text \<open>
  The empty tags element of the claim: its tags are not the empty sequence.
\<close>

theorem empty_tags_element_not_empty_sequence:
  "tags_value (Some (Element [js ''announce__meta-tags''] [] [])) \<noteq> []"
  by (simp add: tags_value_Element split_from_not_Nil)

section \<open>Failures and the exit status\<close>

text \<open>
  C4, as amended. A failure of initialization, fetch or persistence does not go
  unhandled: the \<open>catch\<close> of \<open>main\<close> logs it at error level, \<open>close\<close> runs, and the
  process ends with exit status 0. The exit status is 1 exactly when a browser was
  launched and closing it fails: that error escapes \<open>main\<close>, the top-level handler logs
  it, and \<open>process.exit(1)\<close> follows.
\<close>

theorem run_exit_status:
  "fst (run env s) = (if launch_result env = None \<and> browser_close_result env \<noteq> None then 1 else 0)
   \<and> (\<forall>e. fst (main_try env (new_NewsFeedFetcher s)) = Inl e \<longrightarrow>
         Log ErrorLevel (js ''An error occurred:'') (Some e) \<in> set (trace (snd (run env s))))
   \<and> (\<forall>e. launch_result env = None \<and> browser_close_result env = Some e \<longrightarrow>
         (\<exists>evs. trace (snd (run env s)) =
            evs @ [BrowserClose,
                   Log ErrorLevel (js ''Unhandled error in main function:'') (Some e),
                   ProcessExit 1]))"
proof -
  obtain r s1 where mt: "main_try env (new_NewsFeedFetcher s) = (r, s1)"
    by (cases "main_try env (new_NewsFeedFetcher s)")
  have held: "browser s1 = (if launch_result env = None then Some Browser else None)"
    using main_try_browser [of env "new_NewsFeedFetcher s"] mt
    by (simp add: new_NewsFeedFetcher_def)
  have status: "fst (run env s)
      = (if launch_result env = None \<and> browser_close_result env \<noteq> None then 1 else 0)"
    by (simp add: run_fst main_outcome split: option.splits)
  have logged: "Log ErrorLevel (js ''An error occurred:'') (Some e) \<in> set (trace (snd (run env s)))"
    if "r = Inl e" for e
    using that mt held
    by (cases "browser_close_result env"; cases "launch_result env")
       (simp_all add: run_def main_def io_catch_def io_finally_def logger_def emit_def close_def
         io_bind_def external_def io_return_def)
  have unhandled: "\<exists>evs. trace (snd (run env s)) =
            evs @ [BrowserClose,
                   Log ErrorLevel (js ''Unhandled error in main function:'') (Some e),
                   ProcessExit 1]"
    if "launch_result env = None" "browser_close_result env = Some e" for e
    using that mt held
    by (cases r)
       (simp_all add: run_def main_def io_catch_def io_finally_def logger_def emit_def close_def
         io_bind_def external_def io_return_def)
  show ?thesis using status logged unhandled mt by simp
qed

theorem run_exit_status_witness:
  "fst (run ((fixture_env (Document []))
              \<lparr>goto_result := Some (Error (js ''net::ERR_NAME_NOT_RESOLVED'')),
               browser_close_result := Some (Error (js ''Protocol error''))\<rparr>) initial_state) = 1
   \<and> Log ErrorLevel (js ''An error occurred:'')
       (Some (Error (js ''Failed to fetch content from page 1'')))
     \<in> set (trace (snd (run ((fixture_env (Document []))
              \<lparr>goto_result := Some (Error (js ''net::ERR_NAME_NOT_RESOLVED'')),
               browser_close_result := Some (Error (js ''Protocol error''))\<rparr>) initial_state)))
   \<and> (\<exists>evs. trace (snd (run ((fixture_env (Document []))
              \<lparr>goto_result := Some (Error (js ''net::ERR_NAME_NOT_RESOLVED'')),
               browser_close_result := Some (Error (js ''Protocol error''))\<rparr>) initial_state))
        = evs @ [BrowserClose,
                 Log ErrorLevel (js ''Unhandled error in main function:'')
                   (Some (Error (js ''Protocol error''))),
                 ProcessExit 1])
   \<and> fst (run (fixture_env (Document [])) initial_state) = 0"
proof -
  let ?env = "(fixture_env (Document []))
              \<lparr>goto_result := Some (Error (js ''net::ERR_NAME_NOT_RESOLVED'')),
               browser_close_result := Some (Error (js ''Protocol error''))\<rparr>"
  let ?s0 = "new_NewsFeedFetcher initial_state"
  have init: "fst (initialize ?env ?s0) = Inr ()"
    by (simp add: initialize_result fixture_env_def)
  have "fst (getContent ?env (IntegerNumber 1) (snd (initialize ?env ?s0)))
      = Inl (Error (js ''Failed to fetch content from page 1''))"
    using initialize_page [OF init]
    by (simp add: getContent_result fixture_env_def Number_toString_small js_append)
  with init have failed: "fst (main_try ?env ?s0)
      = Inl (Error (js ''Failed to fetch content from page 1''))"
    by (simp add: main_try_def io_bind_fst)
  show ?thesis
    using run_exit_status [of ?env initial_state]
      run_exit_status [of "fixture_env (Document [])" initial_state] failed
    by (simp add: fixture_env_def)
qed

text \<open>
  The launch of the browser fails: initialization throws, and the run ends with exit
  status 0.
\<close>

theorem initialization_failure_exits_zero:
  "fst (initialize
         ((fixture_env (Document []))
            \<lparr>launch_result := Some (Error (js ''Failed to launch the browser process''))\<rparr>)
         (new_NewsFeedFetcher initial_state))
     = Inl (Error (js ''Browser initialization failed''))
   \<and> fst (run ((fixture_env (Document []))
                 \<lparr>launch_result := Some (Error (js ''Failed to launch the browser process''))\<rparr>)
          initial_state) = 0"
  by (simp add: initialize_result run_fst main_outcome fixture_env_def)

text \<open>
  C5, as amended. \<open>close\<close> does nothing when the fetcher holds no browser; when it holds
  one it closes it and logs the fact. It has no \<open>catch\<close>: when the browser's own
  \<open>close\<close> fails, the error is thrown to the caller and \<open>close\<close> logs nothing.
\<close>

theorem close_outcomes:
  "(browser s = None \<longrightarrow> close env s = (Inr (), s))
   \<and> (browser s \<noteq> None \<and> browser_close_result env = None \<longrightarrow>
        close env s
          = (Inr (), s\<lparr>trace := trace s @ [BrowserClose, Log Info (js ''Browser closed'') None]\<rparr>))
   \<and> (\<forall>e. browser s \<noteq> None \<and> browser_close_result env = Some e \<longrightarrow>
        close env s = (Inl e, s\<lparr>trace := trace s @ [BrowserClose]\<rparr>))"
proof (cases "browser s")
  case None
  then show ?thesis by (simp add: close_def io_return_def)
next
  case (Some b)
  show ?thesis
  proof (cases "browser_close_result env")
    case None
    with Some show ?thesis by (simp add: close_def io_defs)
  next
    case (Some e)
    with \<open>browser s = Some b\<close> show ?thesis by (simp add: close_def io_defs)
  qed
qed

theorem close_outcomes_witness:
  "close (fixture_env (Document [])) initial_state = (Inr (), initial_state)
   \<and> close (fixture_env (Document [])) fixture_ready_state
     = (Inr (), fixture_ready_state\<lparr>trace := [BrowserClose, Log Info (js ''Browser closed'') None]\<rparr>)
   \<and> close ((fixture_env (Document []))
              \<lparr>browser_close_result := Some (Error (js ''Protocol error''))\<rparr>)
        fixture_ready_state
     = (Inl (Error (js ''Protocol error'')), fixture_ready_state\<lparr>trace := [BrowserClose]\<rparr>)"
  using close_outcomes [of initial_state "fixture_env (Document [])"]
    close_outcomes [of fixture_ready_state "fixture_env (Document [])"]
    close_outcomes [of fixture_ready_state
      "(fixture_env (Document []))\<lparr>browser_close_result := Some (Error (js ''Protocol error''))\<rparr>"]
  by (simp add: fixture_env_def fixture_ready_state_def initial_state_def)

text \<open>
  A browser is held and its \<open>close\<close> fails: \<open>close\<close> throws that error, and the trace
  holds the call and no log line.
\<close>

theorem close_failure_is_thrown:
  "fst (close ((fixture_env (Document []))
                 \<lparr>browser_close_result := Some (Error (js ''Protocol error''))\<rparr>)
          fixture_ready_state) = Inl (Error (js ''Protocol error''))
   \<and> trace (snd (close ((fixture_env (Document []))
                 \<lparr>browser_close_result := Some (Error (js ''Protocol error''))\<rparr>)
          fixture_ready_state)) = [BrowserClose]"
  by (simp add: close_def io_defs fixture_env_def fixture_ready_state_def initial_state_def)

text \<open>
  C6, as amended. On a fetcher that has its page, \<open>getContent\<close> throws its fetch error
  exactly when \<open>page.goto\<close>, \<open>page.content\<close> or \<open>page.evaluate\<close> fails: everything
  in its \<open>try\<close> block that has no \<open>.catch\<close> of its own, not the navigation alone.
  Otherwise it returns the extracted records, also when there are none. A failed wait
  for the selector and a failed wait for the navigation after the anti-bot marker are
  logged as warnings and change neither outcome.
\<close>

theorem getContent_failures_and_absorbed_timeouts:
  assumes "page s \<noteq> None"
  shows "fst (getContent env n s) =
     (if goto_result env \<noteq> None \<or> isl (content_result env) \<or> isl (evaluate_document env)
      then Inl (Error (js ''Failed to fetch content from page '' @ Number_toString n))
      else Inr (extract_news (projr (evaluate_document env))))
    \<and> (goto_result env = None \<and> waitForSelector_result env \<noteq> None \<longrightarrow>
         Log Warn (js ''Timeout waiting for .announce.announce_articles'') None
           \<in> set (trace (snd (getContent env n s))))
    \<and> (\<forall>c. goto_result env = None \<and> content_result env = Inr c
            \<and> String_includes c (js ''Data processing... Please, wait.'')
            \<and> waitForNavigation_result env \<noteq> None \<longrightarrow>
         Log Warn (js ''Timeout waiting for navigation'') None
           \<in> set (trace (snd (getContent env n s))))"
proof -
  from assms obtain p where p: "page s = Some p" by auto
  have selector: "Log Warn (js ''Timeout waiting for .announce.announce_articles'') None
           \<in> set (trace (snd (getContent env n s)))"
    if "goto_result env = None" "waitForSelector_result env = Some e" for e
    using that
    by (cases "content_result env"; cases "waitForNavigation_result env";
        cases "evaluate_document env")
       (simp_all add: p getContent_def io_defs page_content_def page_evaluate_def Let_def)
  have navigation: "Log Warn (js ''Timeout waiting for navigation'') None
           \<in> set (trace (snd (getContent env n s)))"
    if "goto_result env = None" "content_result env = Inr c"
      "String_includes c (js ''Data processing... Please, wait.'')"
      "waitForNavigation_result env = Some e" for c e
    using that
    by (cases "waitForSelector_result env"; cases "evaluate_document env")
       (simp_all add: p getContent_def io_defs page_content_def page_evaluate_def Let_def)
  show ?thesis
    using selector navigation by (auto simp: getContent_result [OF assms])
qed

theorem getContent_failures_and_absorbed_timeouts_witness:
  "fst (getContent
      ((fixture_env (Document []))
         \<lparr>waitForSelector_result := Some (Error (js ''TimeoutError'')),
          content_result := Inr (js ''Data processing... Please, wait.''),
          waitForNavigation_result := Some (Error (js ''TimeoutError''))\<rparr>)
      (IntegerNumber 1) fixture_ready_state) = Inr []
   \<and> Log Warn (js ''Timeout waiting for .announce.announce_articles'') None
     \<in> set (trace (snd (getContent
      ((fixture_env (Document []))
         \<lparr>waitForSelector_result := Some (Error (js ''TimeoutError'')),
          content_result := Inr (js ''Data processing... Please, wait.''),
          waitForNavigation_result := Some (Error (js ''TimeoutError''))\<rparr>)
      (IntegerNumber 1) fixture_ready_state)))
   \<and> Log Warn (js ''Timeout waiting for navigation'') None
     \<in> set (trace (snd (getContent
      ((fixture_env (Document []))
         \<lparr>waitForSelector_result := Some (Error (js ''TimeoutError'')),
          content_result := Inr (js ''Data processing... Please, wait.''),
          waitForNavigation_result := Some (Error (js ''TimeoutError''))\<rparr>)
      (IntegerNumber 1) fixture_ready_state)))"
proof -
  have marker: "String_includes (js ''Data processing... Please, wait.'')
      (js ''Data processing... Please, wait.'')"
    by (simp add: js_def)
  show ?thesis
    using getContent_failures_and_absorbed_timeouts [OF ready_page, of
        "(fixture_env (Document []))
         \<lparr>waitForSelector_result := Some (Error (js ''TimeoutError'')),
          content_result := Inr (js ''Data processing... Please, wait.''),
          waitForNavigation_result := Some (Error (js ''TimeoutError''))\<rparr>"
        "IntegerNumber 1"] marker
    by (simp add: fixture_env_def no_news)
qed

text \<open>
  The navigation succeeds and \<open>page.content()\<close> then rejects: \<open>getContent\<close> throws its
  fetch error although the navigation was attempted and completed.
\<close>

theorem content_failure_is_fetch_error:
  "goto_result ((fixture_env (Document []))\<lparr>content_result := Inl (Error (js ''Target closed''))\<rparr>)
     = None
   \<and> fst (getContent
           ((fixture_env (Document []))\<lparr>content_result := Inl (Error (js ''Target closed''))\<rparr>)
           (IntegerNumber 1) fixture_ready_state)
     = Inl (Error (js ''Failed to fetch content from page 1''))"
  by (simp add: getContent_result [OF ready_page] fixture_env_def Number_toString_small js_append)

section \<open>Persistence\<close>

text \<open>
  C7. Where the two file-system calls succeed, \<open>saveToJSON\<close> succeeds for every record
  list and file name: it creates \<open>./output\<close> (with the recursive option) when that path
  does not exist yet, and the file at \<open>path.join('./output', filename)\<close> then holds the
  list as JSON with a two-space indent, whatever the path held before. Saving a second
  list under the same name leaves the second list alone in the file. That the text is
  the list as JSON is stated against the reader of the JSON grammar: \<open>JSON_parse\<close>
  reads the text back as the array of the records, each an object with the members
  \<open>date\<close>, \<open>time\<close>, \<open>title\<close>, \<open>link\<close> and \<open>tags\<close> in this order and with the strings
  of the record, whatever code units they hold. That it is indented by two spaces is
  stated against \<open>pretty_lines\<close>: the text is these lines joined by line feeds, and no
  line holds a line feed of its own. The empty list is written as \<open>[]\<close>.
\<close>

theorem saveToJSON_writes_indented_json:
  assumes "mkdirSync_result env = None" and "writeFileSync_result env = None"
  shows "fst (saveToJSON env data filename s) = Inr ()
   \<and> files (snd (saveToJSON env data filename s))
       = (files s)(path_join env (js ''./output'') filename \<mapsto> JSON_stringify data)
   \<and> directories (snd (saveToJSON env data filename s))
       = (if js ''./output'' \<in> directories s \<or> files s (js ''./output'') \<noteq> None
          then directories s else insert (js ''./output'') (directories s))
   \<and> (js ''./output'' \<notin> directories s \<and> files s (js ''./output'') = None \<longrightarrow>
        MkdirSync (js ''./output'') True \<in> set (trace (snd (saveToJSON env data filename s))))
   \<and> files (snd (saveToJSON env data' filename (snd (saveToJSON env data filename s))))
       = (files s)(path_join env (js ''./output'') filename \<mapsto> JSON_stringify data')
   \<and> JSON_parse (JSON_stringify data) = Some (items_json data)
   \<and> JSON_stringify data = join [0x0A] (pretty_lines data)
   \<and> list_all one_line (pretty_lines data)
   \<and> JSON_stringify [] = js ''[]''"
proof -
  have once: "snd (saveToJSON env d filename t) =
      (if js ''./output'' \<in> directories t \<or> files t (js ''./output'') \<noteq> None
       then t\<lparr>trace := trace t @ [ExistsSync (js ''./output''),
                 WriteFileSync (path_join env (js ''./output'') filename) (JSON_stringify d),
                 Log Info (js ''Data saved to '' @ path_join env (js ''./output'') filename) None],
               files := (files t)(path_join env (js ''./output'') filename \<mapsto> JSON_stringify d)\<rparr>
       else t\<lparr>trace := trace t @ [ExistsSync (js ''./output''), MkdirSync (js ''./output'') True,
                 WriteFileSync (path_join env (js ''./output'') filename) (JSON_stringify d),
                 Log Info (js ''Data saved to '' @ path_join env (js ''./output'') filename) None],
               directories := insert (js ''./output'') (directories t),
               files := (files t)(path_join env (js ''./output'') filename \<mapsto> JSON_stringify d)\<rparr>)"
    for d t
    using assms
    by (simp add: saveToJSON_def io_defs fs_existsSync_def fs_mkdirSync_def fs_writeFileSync_def
        Let_def)
  have ok: "fst (saveToJSON env data filename s) = Inr ()"
    using assms by (simp add: saveToJSON_result)
  have empty: "JSON_stringify [] = js ''[]''"
    by (simp add: JSON_stringify_def SerializeJSONArray_def)
  have saved: "fst (saveToJSON env data filename s) = Inr ()
   \<and> files (snd (saveToJSON env data filename s))
       = (files s)(path_join env (js ''./output'') filename \<mapsto> JSON_stringify data)
   \<and> directories (snd (saveToJSON env data filename s))
       = (if js ''./output'' \<in> directories s \<or> files s (js ''./output'') \<noteq> None
          then directories s else insert (js ''./output'') (directories s))
   \<and> (js ''./output'' \<notin> directories s \<and> files s (js ''./output'') = None \<longrightarrow>
        MkdirSync (js ''./output'') True \<in> set (trace (snd (saveToJSON env data filename s))))
   \<and> files (snd (saveToJSON env data' filename (snd (saveToJSON env data filename s))))
       = (files s)(path_join env (js ''./output'') filename \<mapsto> JSON_stringify data')"
    using ok by (simp add: once)
  have read_back: "JSON_parse (JSON_stringify data) = Some (items_json data)"
    by (rule JSON_parse_JSON_stringify)
  have lines: "JSON_stringify data = join [0x0A] (pretty_lines data)"
    by (rule JSON_stringify_pretty_lines)
  have no_break: "list_all one_line (pretty_lines data)"
    by (rule one_line_pretty_lines)
  from saved read_back lines no_break empty show ?thesis
    by (intro conjI) (elim conjE, assumption)+
qed

theorem saveToJSON_writes_indented_json_witness:
  \<open>fst (saveToJSON (fixture_env (Document []))
          [\<lparr> date = js ''1 May'', time = js ''10:00'', title = js ''First'',
             link = js ''https://mid.ru/a'', tags = [js ''Diplomacy'', js ''Europe''] \<rparr>]
          (js ''news_feed.json'') initial_state) = Inr ()
   \<and> files (snd (saveToJSON (fixture_env (Document []))
          [\<lparr> date = js ''1 May'', time = js ''10:00'', title = js ''First'',
             link = js ''https://mid.ru/a'', tags = [js ''Diplomacy'', js ''Europe''] \<rparr>]
          (js ''news_feed.json'') initial_state)) (js ''output/news_feed.json'')
     = Some (join [0x0A]
         [js ''['',
          js ''  {'',
          js ''    "date": "1 May",'',
          js ''    "time": "10:00",'',
          js ''    "title": "First",'',
          js ''    "link": "https://mid.ru/a",'',
          js ''    "tags": ['',
          js ''      "Diplomacy",'',
          js ''      "Europe"'',
          js ''    ]'',
          js ''  }'',
          js '']''])
   \<and> directories (snd (saveToJSON (fixture_env (Document []))
          [\<lparr> date = js ''1 May'', time = js ''10:00'', title = js ''First'',
             link = js ''https://mid.ru/a'', tags = [js ''Diplomacy'', js ''Europe''] \<rparr>]
          (js ''news_feed.json'') initial_state)) = {js ''./output''}
   \<and> MkdirSync (js ''./output'') True
     \<in> set (trace (snd (saveToJSON (fixture_env (Document []))
          [\<lparr> date = js ''1 May'', time = js ''10:00'', title = js ''First'',
             link = js ''https://mid.ru/a'', tags = [js ''Diplomacy'', js ''Europe''] \<rparr>]
          (js ''news_feed.json'') initial_state)))
   \<and> files (snd (saveToJSON (fixture_env (Document [])) [] (js ''news_feed.json'')
         (snd (saveToJSON (fixture_env (Document []))
          [\<lparr> date = js ''1 May'', time = js ''10:00'', title = js ''First'',
             link = js ''https://mid.ru/a'', tags = [js ''Diplomacy'', js ''Europe''] \<rparr>]
          (js ''news_feed.json'') initial_state)))) (js ''output/news_feed.json'')
     = Some (js ''[]'')
   \<and> JSON_parse (join [0x0A]
         [js ''['',
          js ''  {'',
          js ''    "date": "1 May",'',
          js ''    "time": "10:00",'',
          js ''    "title": "First",'',
          js ''    "link": "https://mid.ru/a",'',
          js ''    "tags": ['',
          js ''      "Diplomacy",'',
          js ''      "Europe"'',
          js ''    ]'',
          js ''  }'',
          js '']''])
     = Some (JArray [JObject
         [(js ''date'', JString (js ''1 May'')), (js ''time'', JString (js ''10:00'')),
          (js ''title'', JString (js ''First'')),
          (js ''link'', JString (js ''https://mid.ru/a'')),
          (js ''tags'', JArray [JString (js ''Diplomacy''), JString (js ''Europe'')])]])
   \<and> files (snd (saveToJSON (fixture_env (Document []))
          [\<lparr> date = js ''1 May'', time = js ''10:00'',
             title = [0x22, 0x5C, 0x0A, 0x01, 0x41F, 0xD800, 0xD83D, 0xDE00],
             link = js ''https://mid.ru/a'', tags = [] \<rparr>]
          (js ''news_feed.json'') initial_state)) (js ''output/news_feed.json'')
     = Some (join [0x0A]
         [js ''['',
          js ''  {'',
          js ''    "date": "1 May",'',
          js ''    "time": "10:00",'',
          js ''    "title": "'' @ [0x5C, 0x22, 0x5C, 0x5C, 0x5C, 0x6E,
                 0x5C, 0x75, 0x30, 0x30, 0x30, 0x31, 0x41F,
                 0x5C, 0x75, 0x64, 0x38, 0x30, 0x30, 0xD83D, 0xDE00] @ js ''",'',
          js ''    "link": "https://mid.ru/a",'',
          js ''    "tags": []'',
          js ''  }'',
          js '']''])
   \<and> JSON_parse (join [0x0A]
         [js ''['',
          js ''  {'',
          js ''    "date": "1 May",'',
          js ''    "time": "10:00",'',
          js ''    "title": "'' @ [0x5C, 0x22, 0x5C, 0x5C, 0x5C, 0x6E,
                 0x5C, 0x75, 0x30, 0x30, 0x30, 0x31, 0x41F,
                 0x5C, 0x75, 0x64, 0x38, 0x30, 0x30, 0xD83D, 0xDE00] @ js ''",'',
          js ''    "link": "https://mid.ru/a",'',
          js ''    "tags": []'',
          js ''  }'',
          js '']''])
     = Some (JArray [JObject
         [(js ''date'', JString (js ''1 May'')), (js ''time'', JString (js ''10:00'')),
          (js ''title'', JString [0x22, 0x5C, 0x0A, 0x01, 0x41F, 0xD800, 0xD83D, 0xDE00]),
          (js ''link'', JString (js ''https://mid.ru/a'')),
          (js ''tags'', JArray [])]])\<close>
proof -
  let ?env = "fixture_env (Document [])"
  let ?data = "[\<lparr> date = js ''1 May'', time = js ''10:00'', title = js ''First'',
             link = js ''https://mid.ru/a'', tags = [js ''Diplomacy'', js ''Europe''] \<rparr>]"
  let ?special = "[\<lparr> date = js ''1 May'', time = js ''10:00'',
             title = [0x22, 0x5C, 0x0A, 0x01, 0x41F, 0xD800, 0xD83D, 0xDE00],
             link = js ''https://mid.ru/a'', tags = [] \<rparr>]"
  have mk: "mkdirSync_result ?env = None" and wr: "writeFileSync_result ?env = None"
    by (simp_all add: fixture_env_def)
  have p: "path_join ?env (js ''./output'') (js ''news_feed.json'') = js ''output/news_feed.json''"
    by (simp add: fixture_env_def js_def)
  have layout: \<open>JSON_stringify ?data = join [0x0A]
         [js ''['',
          js ''  {'',
          js ''    "date": "1 May",'',
          js ''    "time": "10:00",'',
          js ''    "title": "First",'',
          js ''    "link": "https://mid.ru/a",'',
          js ''    "tags": ['',
          js ''      "Diplomacy",'',
          js ''      "Europe"'',
          js ''    ]'',
          js ''  }'',
          js '']'']\<close>
    by (simp add: JSON_stringify_def stringify_item_def SerializeJSONObject_def
        SerializeJSONArray_def QuoteJSONString_def quote_unit_def isLeadingSurrogate_def
        isTrailingSurrogate_def js_def)
  have escaped: \<open>JSON_stringify ?special = join [0x0A]
         [js ''['',
          js ''  {'',
          js ''    "date": "1 May",'',
          js ''    "time": "10:00",'',
          js ''    "title": "'' @ [0x5C, 0x22, 0x5C, 0x5C, 0x5C, 0x6E,
                 0x5C, 0x75, 0x30, 0x30, 0x30, 0x31, 0x41F,
                 0x5C, 0x75, 0x64, 0x38, 0x30, 0x30, 0xD83D, 0xDE00] @ js ''",'',
          js ''    "link": "https://mid.ru/a",'',
          js ''    "tags": []'',
          js ''  }'',
          js '']'']\<close>
    by (simp add: JSON_stringify_def stringify_item_def SerializeJSONObject_def
        SerializeJSONArray_def QuoteJSONString_def quote_unit_def isLeadingSurrogate_def
        isTrailingSurrogate_def UnicodeEscape_def hex_digit_def js_def)
  have missing: "js ''./output'' \<notin> directories initial_state
      \<and> files initial_state (js ''./output'') = None"
    by (simp add: initial_state_def)
  have plain: "items_json ?data = JArray [JObject
         [(js ''date'', JString (js ''1 May'')), (js ''time'', JString (js ''10:00'')),
          (js ''title'', JString (js ''First'')),
          (js ''link'', JString (js ''https://mid.ru/a'')),
          (js ''tags'', JArray [JString (js ''Diplomacy''), JString (js ''Europe'')])]]"
    by (simp add: items_json_def item_json_def)
  have special: "items_json ?special = JArray [JObject
         [(js ''date'', JString (js ''1 May'')), (js ''time'', JString (js ''10:00'')),
          (js ''title'', JString [0x22, 0x5C, 0x0A, 0x01, 0x41F, 0xD800, 0xD83D, 0xDE00]),
          (js ''link'', JString (js ''https://mid.ru/a'')),
          (js ''tags'', JArray [])]]"
    by (simp add: items_json_def item_json_def)
  note saved = saveToJSON_writes_indented_json
      [OF mk wr, of ?data "js ''news_feed.json''" initial_state "[]"]
  note again = saveToJSON_writes_indented_json
      [OF mk wr, of ?special "js ''news_feed.json''" initial_state "[]"]
  have first: "fst (saveToJSON ?env ?data (js ''news_feed.json'') initial_state) = Inr ()
   \<and> files (snd (saveToJSON ?env ?data (js ''news_feed.json'') initial_state))
        (js ''output/news_feed.json'') = Some (JSON_stringify ?data)
   \<and> directories (snd (saveToJSON ?env ?data (js ''news_feed.json'') initial_state))
        = {js ''./output''}
   \<and> MkdirSync (js ''./output'') True
       \<in> set (trace (snd (saveToJSON ?env ?data (js ''news_feed.json'') initial_state)))
   \<and> files (snd (saveToJSON ?env [] (js ''news_feed.json'')
         (snd (saveToJSON ?env ?data (js ''news_feed.json'') initial_state))))
        (js ''output/news_feed.json'') = Some (js ''[]'')
   \<and> JSON_parse (JSON_stringify ?data) = Some (items_json ?data)"
    using saved [THEN conjunct1] saved [THEN conjunct2, THEN conjunct1]
      saved [THEN conjunct2, THEN conjunct2, THEN conjunct1]
      saved [THEN conjunct2, THEN conjunct2, THEN conjunct2, THEN conjunct1]
      saved [THEN conjunct2, THEN conjunct2, THEN conjunct2, THEN conjunct2, THEN conjunct1]
      saved [THEN conjunct2, THEN conjunct2, THEN conjunct2, THEN conjunct2, THEN conjunct2,
        THEN conjunct1]
      saved [THEN conjunct2, THEN conjunct2, THEN conjunct2, THEN conjunct2, THEN conjunct2,
        THEN conjunct2, THEN conjunct2, THEN conjunct2]
      missing
    unfolding p by (simp add: initial_state_def)
  have second: "files (snd (saveToJSON ?env ?special (js ''news_feed.json'') initial_state))
        (js ''output/news_feed.json'') = Some (JSON_stringify ?special)
   \<and> JSON_parse (JSON_stringify ?special) = Some (items_json ?special)"
    using again [THEN conjunct2, THEN conjunct1]
      again [THEN conjunct2, THEN conjunct2, THEN conjunct2, THEN conjunct2, THEN conjunct2,
        THEN conjunct1]
    unfolding p by simp
  from first second show ?thesis
    unfolding layout escaped plain special by (intro conjI) (elim conjE, assumption)+
qed

section \<open>Before initialization\<close>

text \<open>
  C8. A fetcher without its page makes \<open>getContent\<close> throw "Browser not initialized"
  at once: the state, trace included, is as it was, so nothing was navigated to. A run
  whose \<open>initialize\<close> fails ends without any navigation, without any call that creates
  a directory or writes a file, and with the file system as it was.
\<close>

theorem uninitialized_fetcher_fails_fast:
  "(page s = None \<longrightarrow> getContent env n s = (Inl (Error (js ''Browser not initialized'')), s))
   \<and> (isl (fst (initialize env (new_NewsFeedFetcher s))) \<longrightarrow>
        filter is_navigation (trace (snd (run env s))) = filter is_navigation (trace s)
      \<and> filter is_write (trace (snd (run env s))) = filter is_write (trace s)
      \<and> files (snd (run env s)) = files s
      \<and> directories (snd (run env s)) = directories s)"
proof -
  let ?s0 = "new_NewsFeedFetcher s"
  have fast: "getContent env n s = (Inl (Error (js ''Browser not initialized'')), s)"
    if "page s = None"
    using that by (simp add: getContent_def io_throw_def)
  have quiet: "filter is_navigation (trace (snd (run env s))) = filter is_navigation (trace s)
      \<and> filter is_write (trace (snd (run env s))) = filter is_write (trace s)
      \<and> files (snd (run env s)) = files s
      \<and> directories (snd (run env s)) = directories s"
    if failed: "isl (fst (initialize env ?s0))"
  proof -
    obtain e s1 where init: "initialize env ?s0 = (Inl e, s1)"
      using failed by (cases "initialize env ?s0") (auto simp: isl_def)
    have mt: "main_try env ?s0 = (Inl e, s1)"
      by (simp add: main_try_def io_bind_def init)
    have s1: "filter is_navigation (trace s1) = filter is_navigation (trace s)"
      "filter is_write (trace s1) = filter is_write (trace s)"
      "files s1 = files s" "directories s1 = directories s"
      using initialize_fields [of env ?s0] init by (simp_all add: new_NewsFeedFetcher_def)
    show ?thesis
      using mt s1
      by (cases "browser s1"; cases "browser_close_result env")
         (simp_all add: run_def main_def io_catch_def io_finally_def logger_def emit_def close_def
           io_bind_def external_def io_return_def)
  qed
  show ?thesis using fast quiet by blast
qed

theorem uninitialized_fetcher_fails_fast_witness:
  "getContent ((fixture_env fixture_document)
                 \<lparr>launch_result := Some (Error (js ''Failed to launch the browser process''))\<rparr>)
      (IntegerNumber 1) initial_state
     = (Inl (Error (js ''Browser not initialized'')), initial_state)
   \<and> filter is_navigation (trace (snd (run ((fixture_env fixture_document)
                 \<lparr>launch_result := Some (Error (js ''Failed to launch the browser process''))\<rparr>)
        initial_state))) = []
   \<and> filter is_write (trace (snd (run ((fixture_env fixture_document)
                 \<lparr>launch_result := Some (Error (js ''Failed to launch the browser process''))\<rparr>)
        initial_state))) = []
   \<and> files (snd (run ((fixture_env fixture_document)
                 \<lparr>launch_result := Some (Error (js ''Failed to launch the browser process''))\<rparr>)
        initial_state)) (js ''output/news_feed.json'') = None
   \<and> directories (snd (run ((fixture_env fixture_document)
                 \<lparr>launch_result := Some (Error (js ''Failed to launch the browser process''))\<rparr>)
        initial_state)) = {}"
proof -
  let ?env = "(fixture_env fixture_document)
                 \<lparr>launch_result := Some (Error (js ''Failed to launch the browser process''))\<rparr>"
  have failed: "isl (fst (initialize ?env (new_NewsFeedFetcher initial_state)))"
    by (simp add: initialize_result fixture_env_def)
  have absent: "page initial_state = None"
    by (simp add: initial_state_def)
  show ?thesis
    using uninitialized_fetcher_fails_fast [of initial_state ?env "IntegerNumber 1"] failed absent
    by (simp add: initial_state_def)
qed

section \<open>Page numbers and tags that the specification leaves open\<close>

text \<open>
  C9. \<open>getContent\<close> does not check its page number. For every number other than 1
  (zero, a negative integer, a fraction, NaN, an infinity), a fetcher that has its page
  logs the fetch and navigates to the listing URL with \<open>?PAGEN_1=\<close> followed by the
  number as the language prints it, for an integer of magnitude up to \<open>2^53\<close> the
  numeral that is read back as that integer; where the browser's calls succeed, the
  records of the page are returned.
\<close>

theorem getContent_accepts_any_page_number:
  assumes "page s \<noteq> None" and "pageNumber \<noteq> IntegerNumber 1" and "is_Number pageNumber"
  shows "(\<exists>rest. trace (snd (getContent env pageNumber s)) =
            trace s
            @ Log Info (js ''Fetching page '' @ Number_toString pageNumber @ js ''...'') None
              # Goto (js ''https://mid.ru/ru/foreign_policy/news/?PAGEN_1=''
                      @ Number_toString pageNumber)
              # rest)
       \<and> (\<forall>n. pageNumber = IntegerNumber n \<longrightarrow>
             parse_integer (Number_toString pageNumber) = Some n)
       \<and> (\<forall>printed. pageNumber = OtherNumber printed \<longrightarrow>
             Number_toString pageNumber = printed)
       \<and> (goto_result env = None \<and> \<not> isl (content_result env) \<and> \<not> isl (evaluate_document env)
            \<longrightarrow> fst (getContent env pageNumber s)
                = Inr (extract_news (projr (evaluate_document env))))"
proof -
  have "\<exists>rest. trace (snd (getContent env pageNumber s)) =
            trace s
            @ Log Info (js ''Fetching page '' @ Number_toString pageNumber @ js ''...'') None
              # Goto (js ''https://mid.ru/ru/foreign_policy/news/?PAGEN_1=''
                      @ Number_toString pageNumber)
              # rest"
    using getContent_trace [OF assms(1), of env pageNumber] assms(2) by auto
  moreover have "parse_integer (Number_toString pageNumber) = Some n"
    if "pageNumber = IntegerNumber n" for n
    unfolding that by (rule parse_integer_Number_toString)
  moreover have "fst (getContent env pageNumber s)
      = Inr (extract_news (projr (evaluate_document env)))"
    if "goto_result env = None" "\<not> isl (content_result env)" "\<not> isl (evaluate_document env)"
    using that by (simp add: getContent_result [OF assms(1)])
  ultimately show ?thesis by auto
qed

theorem getContent_accepts_any_page_number_witness:
  "(\<exists>rest. trace (snd (getContent (fixture_env (Document [])) (IntegerNumber 0)
        fixture_ready_state))
      = Log Info (js ''Fetching page 0...'') None
        # Goto (js ''https://mid.ru/ru/foreign_policy/news/?PAGEN_1=0'') # rest)
   \<and> fst (getContent (fixture_env (Document [])) (IntegerNumber 0) fixture_ready_state) = Inr []
   \<and> (\<exists>rest. trace (snd (getContent (fixture_env (Document [])) (IntegerNumber (- 3))
        fixture_ready_state))
      = Log Info (js ''Fetching page -3...'') None
        # Goto (js ''https://mid.ru/ru/foreign_policy/news/?PAGEN_1=-3'') # rest)
   \<and> parse_integer (js ''-3'') = Some (- 3)
   \<and> (\<exists>rest. trace (snd (getContent (fixture_env (Document [])) (OtherNumber (js ''NaN''))
        fixture_ready_state))
      = Log Info (js ''Fetching page NaN...'') None
        # Goto (js ''https://mid.ru/ru/foreign_policy/news/?PAGEN_1=NaN'') # rest)
   \<and> (\<exists>rest. trace (snd (getContent (fixture_env (Document []))
        (OtherNumber (js ''1152921504606847000'')) fixture_ready_state))
      = Log Info (js ''Fetching page 1152921504606847000...'') None
        # Goto (js ''https://mid.ru/ru/foreign_policy/news/?PAGEN_1=1152921504606847000'')
        # rest)"
proof -
  have nan: "is_Number (OtherNumber (js ''NaN''))"
    by (simp add: parse_integer_def parse_decimal_def digit_value_def js_def)
  have big: "is_Number (OtherNumber (js ''1152921504606847000''))"
    by (simp add: parse_integer_def parse_decimal_def digit_value_def js_def)
  show ?thesis
    using getContent_accepts_any_page_number
        [OF ready_page, of "IntegerNumber 0" "fixture_env (Document [])"]
      getContent_accepts_any_page_number
        [OF ready_page, of "IntegerNumber (- 3)" "fixture_env (Document [])"]
      getContent_accepts_any_page_number
        [OF ready_page _ nan, of "fixture_env (Document [])"]
      getContent_accepts_any_page_number
        [OF ready_page _ big, of "fixture_env (Document [])"]
    by (simp add: Number_toString_small js_append no_news fixture_env_def
        fixture_ready_state_def initial_state_def)
qed

text \<open>
  C10. For every record that the callback pushes, the tags are the empty sequence
  exactly when the entry has no tags element; a tags element whose trimmed text is empty
  gives the one-element sequence holding the empty string.
\<close>

theorem tags_empty_only_without_tags_element:
  assumes "announce_item item items = items @ [r]"
  shows "(tags r = []) = (querySelector [js ''announce__meta-tags''] item = None)
       \<and> (\<forall>el. querySelector [js ''announce__meta-tags''] item = Some el
                \<and> String_trim (textOf el) = []
              \<longrightarrow> tags r = [js ''''])"
proof -
  have tv: "tags r = tags_value (querySelector [js ''announce__meta-tags''] item)"
    using assms by (auto simp: announce_item_def news_item_def split: option.splits)
  show ?thesis
  proof (cases "querySelector [js ''announce__meta-tags''] item")
    case None
    then show ?thesis using tv by (simp add: tags_value_def)
  next
    case (Some el)
    then obtain cs h kids where el: "el = Element cs h kids"
      using querySelector_Some_matches matches_Element by blast
    have "tags r = split_from (js '', '') [] (String_trim (textOf el))"
      using tv Some by (simp add: el tags_value_Element)
    then show ?thesis using Some
      by (auto simp: split_from_not_Nil js_def)
  qed
qed

theorem tags_empty_only_without_tags_element_witness:
  "announce_item fixture_entry_empty_tags []
     = [\<lparr> date = js ''4 May'', time = js ''09:15'', title = js ''Fourth'',
          link = js ''https://mid.ru/d'', tags = [js ''''] \<rparr>]
   \<and> querySelector [js ''announce__meta-tags''] fixture_entry_empty_tags
     = Some (Element [js ''announce__meta-tags''] [] [])"
proof -
  let ?r = "\<lparr> date = js ''4 May'', time = js ''09:15'', title = js ''Fourth'',
             link = js ''https://mid.ru/d'', tags = tags_value
               (querySelector [js ''announce__meta-tags''] fixture_entry_empty_tags) \<rparr>"
  have el: "querySelector [js ''announce__meta-tags''] fixture_entry_empty_tags
      = Some (Element [js ''announce__meta-tags''] [] [])"
    by (simp add: fixture_entry_empty_tags_def querySelector_def querySelectorAll_def js_def)
  have pushed: "announce_item fixture_entry_empty_tags [] = [] @ [?r]"
    by (simp add: fixture_entry_empty_tags_def announce_item_def querySelector_def
        querySelectorAll_def news_item_def str_or_def String_trim_def isWhiteSpace_def js_def)
  have "String_trim (textOf (Element [js ''announce__meta-tags''] [] [])) = []"
    by (simp add: String_trim_def)
  with tags_empty_only_without_tags_element [OF pushed] el
  have "tags ?r = [js '''']" by blast
  with pushed el show ?thesis by simp
qed

end
